theory Spec2Isabelle
  imports Main "HOL-Library.Word"
begin

section \<open>Data shared by the two variants of the store\<close>

text \<open>
  The repository holds two variants of the same store.
  \<^item> \<^verbatim>\<open>src/unnamed/part_000\<close> (store) with \<^verbatim>\<open>src/unnamed/part_002\<close> (products) and
    \<^verbatim>\<open>src/main.go\<close>: the store draws product and order identities itself
    (\<^verbatim>\<open>addProducts\<close>) and compares the amount paid with the total price. Its
    definitions carry the source's names.
  \<^item> \<^verbatim>\<open>src/store.go\<close> with \<^verbatim>\<open>src/unnamed/part_001\<close>: the variant with a set of
    supported product types (\<^verbatim>\<open>updateProduct\<close>, \<^verbatim>\<open>updateProductsSupported\<close>). Its
    definitions carry the source's names, with the suffix \<open>_sup\<close> where part_000
    has the same name.

  Prices and amounts are \<^verbatim>\<open>float64\<close> in the source. The store only adds them,
  compares them and compares them with zero, so they are a type parameter \<open>'p\<close> of
  sort \<open>{zero, plus, ord}\<close>: nothing is assumed of the arithmetic (no associativity,
  no totality of the order), and every theorem holds for IEEE doubles as for the
  integers the examples use.

  The mutex is not modelled: every operation is one atomic step.
\<close>

type_synonym time = int
  \<comment> \<open>an instant of \<^verbatim>\<open>time.Time\<close>; \<^verbatim>\<open>t.After(u)\<close> is \<open>u < t\<close>\<close>

text \<open>
  \<^verbatim>\<open>rand.Read(buf)\<close>: the bytes the buffer holds when the call returns, and whether
  it returned an error. The source only logs the error and goes on.
\<close>
type_synonym 'i rand_read = "'i \<times> bool"

text \<open>
  \<^verbatim>\<open>type product struct\<close> (the same ten fields in both variants; the identity is
  \<^verbatim>\<open>[16]byte\<close> in part_002 and \<^verbatim>\<open>[32]byte\<close> in part_001). The specifications are a
  \<^verbatim>\<open>map[string][]string\<close> of which only the length is read: a list with one pair a key.
  \<^verbatim>\<open>*time.Time\<close> is an option, \<open>None\<close> for nil.
\<close>
record ('i, 'p) product =
  p_id :: 'i
  p_name :: string
  price :: 'p
  productType :: string
  category :: string
  description :: string
  images :: "string list"
  specifications :: "(string \<times> string list) list"
  lastUpdated :: "time option"
  createdAt :: "time option"

text \<open>One constructor for each \<^verbatim>\<open>errors.New\<close> and \<^verbatim>\<open>fmt.Errorf\<close> of the two variants.\<close>
datatype error =
    ErrNoProducts           \<comment> \<open>provide one or more products\<close>
  | ErrInvalidProduct       \<comment> \<open>invalid product (a nil interface value)\<close>
  | ErrProductNotValid      \<comment> \<open>product ... is not valid or missing required fields\<close>
  | ErrProductNotSupported  \<comment> \<open>product with ID ... is not supported\<close>
  | ErrOrderMissingFields   \<comment> \<open>order is missing required fields\<close>
  | ErrProductDoesNotExist  \<comment> \<open>product with ID ... does not exist\<close>
  | ErrNotEnoughPaid        \<comment> \<open>order amount paid is not enough\<close>
  | ErrNoProductIDs         \<comment> \<open>provide one or more product IDs\<close>
  | ErrTypeNotSupported     \<comment> \<open>product type ... is not supported\<close>
  | ErrNoProductType        \<comment> \<open>there's no product type ...\<close>
  | ErrCannotDisable        \<comment> \<open>cannot disable non-existent product type\<close>

text \<open>
  \<^verbatim>\<open>for _, v := range m\<close> visits every key of a Go map once, in an order the language
  leaves open. The order is an argument \<open>ks\<close> of each operation that ranges over a map;
  \<open>visits m ks\<close> says that \<open>ks\<close> is such an order, and \<open>range_values m ks\<close> are the
  values in the order of the visit.
\<close>
definition visits :: "('k \<rightharpoonup> 'v) \<Rightarrow> 'k list \<Rightarrow> bool" where
  "visits m ks = (distinct ks \<and> set ks = dom m)"

definition range_values :: "('k \<rightharpoonup> 'v) \<Rightarrow> 'k list \<Rightarrow> 'v list" where
  "range_values m ks = List.map_filter m ks"

text \<open>
  The loop of \<^verbatim>\<open>deleteProducts\<close>, the same in both variants:
  \<^verbatim>\<open>if _, ok := m[id]; ok { delete(m, id); deleted++ }\<close>.
\<close>
fun delete_loop :: "('k \<rightharpoonup> 'v) \<Rightarrow> int \<Rightarrow> 'k list \<Rightarrow> int \<times> ('k \<rightharpoonup> 'v)" where
  "delete_loop m deleted [] = (deleted, m)"
| "delete_loop m deleted (k # ks) =
     (case m k of
        Some _ \<Rightarrow> delete_loop (m(k := None)) (deleted + 1) ks
      | None \<Rightarrow> delete_loop m deleted ks)"

section \<open>The store of part_000: identities drawn by the store\<close>

type_synonym productID = "128 word"
type_synonym orderID = "96 word"
type_synonym addr = nat

text \<open>
  \<^verbatim>\<open>addProducts\<close> writes the identity and the dates through the pointer it is given
  and \<^verbatim>\<open>sellProduct\<close> writes the order's identity through the pointer it is given, so
  product and order structs live in a memory, addressed by \<open>addr\<close>. Go collects
  garbage: every address holds an object, so the memories are total functions.

  \<^verbatim>\<open>type car struct\<close>: the store reads a car and never writes one, so a \<^verbatim>\<open>*car\<close> is
  the car's fields, the embedded \<^verbatim>\<open>*product\<close> among them as an address.
\<close>
record car =
  car_product :: addr
  car_color :: string
  car_make :: string
  car_model :: string
  car_year :: string

text \<open>
  A non-nil value of the interface \<^verbatim>\<open>Product\<close>: a \<^verbatim>\<open>*product\<close> or a \<^verbatim>\<open>*car\<close>. The nil
  interface value is \<open>None\<close> of \<open>Product option\<close>. The pointer inside a non-nil
  interface value, and the \<^verbatim>\<open>*product\<close> a car embeds, are taken to be non-nil, so the
  receivers' own tests \<^verbatim>\<open>p != nil\<close> and \<^verbatim>\<open>c.product != nil\<close> are true. A nil pointer
  there is outside the model: every operation that is given such a product
  dereferences nil in its validation loop, before it writes anything (\<^verbatim>\<open>sellProduct\<close>
  calls \<^verbatim>\<open>p.ID()\<close> first, \<^verbatim>\<open>addProducts\<close> calls \<^verbatim>\<open>product.ID()\<close> for its error
  message once \<^verbatim>\<open>IsValid\<close> has returned false).
\<close>
datatype Product = ProductPtr addr | CarPtr car

text \<open>\<^verbatim>\<open>type order struct\<close> of part_002.\<close>
record 'p order =
  o_id :: orderID
  o_name :: string
  amountPaid :: 'p
  shippingAddress :: string
  o_products :: "Product option list"

text \<open>
  \<^verbatim>\<open>type store struct\<close> with the memory it points into: \<open>products\<close> and
  \<open>processedOrders\<close> are the two maps (the second holds \<^verbatim>\<open>*order\<close>), \<open>pmem\<close> the
  product structs and \<open>omem\<close> the order structs.
\<close>
record 'p store =
  st_name :: string
  products :: "productID \<rightharpoonup> Product"
  processedOrders :: "orderID \<rightharpoonup> addr"
  pmem :: "addr \<Rightarrow> (productID, 'p) product"
  omem :: "addr \<Rightarrow> 'p order"

definition newStore :: "string \<Rightarrow> (addr \<Rightarrow> (productID, 'p) product) \<Rightarrow> (addr \<Rightarrow> 'p order) \<Rightarrow> 'p store" where
  "newStore nm pm om =
     \<lparr>st_name = nm, products = Map.empty, processedOrders = Map.empty, pmem = pm, omem = om\<rparr>"

subsection \<open>Methods of the products (part_002)\<close>

fun Product_of :: "Product \<Rightarrow> addr" where
  "Product_of (ProductPtr a) = a"
| "Product_of (CarPtr c) = car_product c"

definition ID :: "'p store \<Rightarrow> Product \<Rightarrow> productID" where
  "ID s p = p_id (pmem s (Product_of p))"

definition Type :: "'p store \<Rightarrow> Product \<Rightarrow> string" where
  "Type s p = productType (pmem s (Product_of p))"

definition Price :: "'p store \<Rightarrow> Product \<Rightarrow> 'p" where
  "Price s p = price (pmem s (Product_of p))"

definition product_IsValid :: "('i, 'p::{zero,ord}) product \<Rightarrow> bool" where
  "product_IsValid p =
     (p_name p \<noteq> [] \<and> productType p \<noteq> [] \<and> description p \<noteq> [] \<and>
      0 < price p \<and> length (images p) \<noteq> 0 \<and> length (specifications p) \<noteq> 0)"

fun IsValid :: "('p::{zero,ord}) store \<Rightarrow> Product \<Rightarrow> bool" where
  "IsValid s (ProductPtr a) = product_IsValid (pmem s a)"
| "IsValid s (CarPtr c) =
     (product_IsValid (pmem s (car_product c)) \<and> car_make c \<noteq> [] \<and>
      car_model c \<noteq> [] \<and> car_color c \<noteq> [])"

subsection \<open>Operations of the store (part_000)\<close>

definition generateProductID :: "'p store \<Rightarrow> addr \<Rightarrow> productID rand_read \<Rightarrow> 'p store" where
  "generateProductID s a r = s\<lparr>pmem := (pmem s)(a := (pmem s a)\<lparr>p_id := fst r\<rparr>)\<rparr>"

definition generateOrderID :: "'p store \<Rightarrow> addr \<Rightarrow> orderID rand_read \<Rightarrow> 'p store" where
  "generateOrderID s a r = s\<lparr>omem := (omem s)(a := (omem s a)\<lparr>o_id := fst r\<rparr>)\<rparr>"

text \<open>
  The validation loop of \<^verbatim>\<open>addProducts\<close>. It returns the first error, or the
  products, none of them nil.
\<close>
fun validate_products :: "('p::{zero,ord}) store \<Rightarrow> Product option list \<Rightarrow> error + Product list" where
  "validate_products s [] = Inr []"
| "validate_products s (None # ps) = Inl ErrInvalidProduct"
| "validate_products s (Some p # ps) =
     (if \<not> IsValid s p then Inl ErrProductNotValid
      else case validate_products s ps of
             Inl e \<Rightarrow> Inl e
           | Inr qs \<Rightarrow> Inr (p # qs))"

text \<open>
  The body of the second loop of \<^verbatim>\<open>addProducts\<close>, for the product \<open>p\<close> and the
  outcome \<open>r\<close> of its \<^verbatim>\<open>rand.Read\<close>: it returns the identity it has read back from the
  product and the store.
\<close>
definition add_step :: "time \<Rightarrow> productID rand_read \<Rightarrow> 'p store \<Rightarrow> Product \<Rightarrow> productID \<times> 'p store" where
  "add_step now r s p =
     (let a = Product_of p;
          s1 = generateProductID s a r;
          s2 = s1\<lparr>pmem := (pmem s1)(a := (pmem s1 a)\<lparr>lastUpdated := Some now, createdAt := Some now\<rparr>)\<rparr>;
          productID = ID s2 p
      in (productID, s2\<lparr>products := (products s2)(productID \<mapsto> p)\<rparr>))"

text \<open>
  The second loop of \<^verbatim>\<open>addProducts\<close>; \<open>i\<close> counts the calls of \<^verbatim>\<open>rand.Read\<close>, the
  \<open>i\<close>-th of which gives \<open>rnd i\<close>.
\<close>
fun add_loop :: "time \<Rightarrow> (nat \<Rightarrow> productID rand_read) \<Rightarrow> nat \<Rightarrow> 'p store \<Rightarrow> Product list
    \<Rightarrow> productID list \<times> 'p store" where
  "add_loop now rnd i s [] = ([], s)"
| "add_loop now rnd i s (p # ps) =
     (let (productID, s3) = add_step now (rnd i) s p;
          (ids, s') = add_loop now rnd (Suc i) s3 ps
      in (productID # ids, s'))"

definition addProducts :: "('p::{zero,ord}) store \<Rightarrow> time \<Rightarrow> (nat \<Rightarrow> productID rand_read)
    \<Rightarrow> Product option list \<Rightarrow> (error + productID list) \<times> 'p store" where
  "addProducts s now rnd ps =
     (if length ps = 0 then (Inl ErrNoProducts, s)
      else case validate_products s ps of
             Inl e \<Rightarrow> (Inl e, s)
           | Inr qs \<Rightarrow> (let (ids, s') = add_loop now rnd 0 s qs in (Inr ids, s')))"

text \<open>
  The first loop of \<^verbatim>\<open>sellProduct\<close>, with the running \<^verbatim>\<open>totalProductCost\<close>. It
  returns the first error, or the total and the products, none of them nil.
\<close>
fun sell_check :: "('p::{zero,plus,ord}) store \<Rightarrow> 'p \<Rightarrow> Product option list
    \<Rightarrow> error + ('p \<times> Product list)" where
  "sell_check s totalProductCost [] = Inr (totalProductCost, [])"
| "sell_check s totalProductCost (None # ps) = Inl ErrInvalidProduct"
| "sell_check s totalProductCost (Some p # ps) =
     (if products s (ID s p) = None then Inl ErrProductDoesNotExist
      else if \<not> IsValid s p then Inl ErrProductNotValid
      else case sell_check s (totalProductCost + Price s p) ps of
             Inl e \<Rightarrow> Inl e
           | Inr (t, qs) \<Rightarrow> Inr (t, p # qs))"

text \<open>The second loop of \<^verbatim>\<open>sellProduct\<close>: \<^verbatim>\<open>delete(s.products, p.ID())\<close>.\<close>
fun sell_delete :: "'p store \<Rightarrow> Product list \<Rightarrow> 'p store" where
  "sell_delete s [] = s"
| "sell_delete s (p # ps) = sell_delete (s\<lparr>products := (products s)(ID s p := None)\<rparr>) ps"

text \<open>
  \<^verbatim>\<open>sellProduct\<close>. The result \<open>Inl e\<close> stands for \<^verbatim>\<open>(zeroOrderID, err)\<close>; the second
  component is the store and the memory when the call returns.
\<close>
definition sellProduct :: "('p::{zero,plus,ord}) store \<Rightarrow> orderID rand_read \<Rightarrow> addr option
    \<Rightarrow> (error + orderID) \<times> 'p store" where
  "sellProduct s rnd ord =
     (case ord of
        None \<Rightarrow> (Inl ErrOrderMissingFields, s)
      | Some a \<Rightarrow>
          (let order = omem s a in
           if shippingAddress order = [] \<or> amountPaid order \<le> 0 \<or> o_name order = [] \<or>
              length (o_products order) = 0
           then (Inl ErrOrderMissingFields, s)
           else (case sell_check s 0 (o_products order) of
                   Inl e \<Rightarrow> (Inl e, s)
                 | Inr (totalProductCost, ps) \<Rightarrow>
                     (if amountPaid order < totalProductCost then (Inl ErrNotEnoughPaid, s)
                      else (let s1 = sell_delete s ps;
                                s2 = generateOrderID s1 a rnd;
                                oid = o_id (omem s2 a)
                            in (Inr oid, s2\<lparr>processedOrders := (processedOrders s2)(oid \<mapsto> a)\<rparr>))))))"

definition product :: "'p store \<Rightarrow> productID \<Rightarrow> Product option" where
  "product s pid = products s pid"

text \<open>
  The loops of the queries: \<^verbatim>\<open>products = append(products, product)\<close> and
  \<^verbatim>\<open>totalCost += product.Price()\<close>, for every product or for those of one type.
\<close>
definition collect_all :: "('p::plus) store \<Rightarrow> Product list \<Rightarrow> Product list \<times> 'p \<Rightarrow> Product list \<times> 'p" where
  "collect_all s ps acc = fold (\<lambda>p (out, totalCost). (out @ [p], totalCost + Price s p)) ps acc"

definition collect_type :: "('p::plus) store \<Rightarrow> string \<Rightarrow> Product list \<Rightarrow> Product list \<times> 'p
    \<Rightarrow> Product list \<times> 'p" where
  "collect_type s ty ps acc =
     fold (\<lambda>p (out, totalCost).
             if Type s p = ty then (out @ [p], totalCost + Price s p) else (out, totalCost)) ps acc"

definition availableProducts :: "('p::{zero,plus}) store \<Rightarrow> productID list \<Rightarrow> string
    \<Rightarrow> Product list \<times> 'p" where
  "availableProducts s ks ty =
     (if ty = [] then collect_all s (range_values (products s) ks) ([], 0)
      else collect_type s ty (range_values (products s) ks) ([], 0))"

text \<open>
  \<^verbatim>\<open>soldProducts\<close> ranges over the orders and, in each, over its slice of products.
  A nil product in a recorded order makes \<^verbatim>\<open>product.Price()\<close> or \<^verbatim>\<open>product.Type()\<close>
  panic: the result is \<open>None\<close> then.
\<close>
definition sold_slices :: "'p store \<Rightarrow> orderID list \<Rightarrow> Product option list" where
  "sold_slices s oks = concat (map (\<lambda>a. o_products (omem s a)) (range_values (processedOrders s) oks))"

definition soldProducts :: "('p::{zero,plus}) store \<Rightarrow> orderID list \<Rightarrow> string
    \<Rightarrow> (Product list \<times> 'p) option" where
  "soldProducts s oks ty =
     (case those (sold_slices s oks) of
        None \<Rightarrow> None
      | Some ps \<Rightarrow> Some (if ty = [] then collect_all s ps ([], 0) else collect_type s ty ps ([], 0)))"

definition orders :: "('p::{zero,plus}) store \<Rightarrow> orderID list \<Rightarrow> addr list \<times> 'p" where
  "orders s oks =
     fold (\<lambda>a (out, totalPaid). (out @ [a], totalPaid + amountPaid (omem s a)))
       (range_values (processedOrders s) oks) ([], 0)"

definition deleteProducts :: "'p store \<Rightarrow> productID list \<Rightarrow> (error + int) \<times> 'p store" where
  "deleteProducts s productIDs =
     (if length productIDs = 0 then (Inl ErrNoProductIDs, s)
      else (let (deleted, m) = delete_loop (products s) 0 productIDs
            in (Inr deleted, s\<lparr>products := m\<rparr>)))"

fun inStock_loop :: "'p store \<Rightarrow> string \<Rightarrow> Product list \<Rightarrow> bool" where
  "inStock_loop s ty [] = False"
| "inStock_loop s ty (p # ps) = (if Type s p = ty then True else inStock_loop s ty ps)"

definition inStock :: "'p store \<Rightarrow> productID list \<Rightarrow> string \<Rightarrow> bool" where
  "inStock s ks ty = inStock_loop s ty (range_values (products s) ks)"

text \<open>
  The operations a caller can run on this store, and the store after each. The queries
  (\<^verbatim>\<open>product\<close>, \<^verbatim>\<open>availableProducts\<close>, \<^verbatim>\<open>soldProducts\<close>, \<^verbatim>\<open>orders\<close>, \<^verbatim>\<open>inStock\<close>) write to
  no field of the store and to no object: they leave the state as it is.
\<close>
datatype op =
    AddProducts time "nat \<Rightarrow> productID rand_read" "Product option list"
  | SellProduct "orderID rand_read" "addr option"
  | DeleteProducts "productID list"
  | QueryProduct productID
  | QueryAvailableProducts "productID list" string
  | QuerySoldProducts "orderID list" string
  | QueryOrders "orderID list"
  | QueryInStock "productID list" string

fun step :: "('p::{zero,plus,ord}) store \<Rightarrow> op \<Rightarrow> 'p store" where
  "step s (AddProducts now rnd ps) = snd (addProducts s now rnd ps)"
| "step s (SellProduct rnd ord) = snd (sellProduct s rnd ord)"
| "step s (DeleteProducts ids) = snd (deleteProducts s ids)"
| "step s (QueryProduct pid) = s"
| "step s (QueryAvailableProducts ks ty) = s"
| "step s (QuerySoldProducts oks ty) = s"
| "step s (QueryOrders oks) = s"
| "step s (QueryInStock ks ty) = s"

definition run :: "('p::{zero,plus,ord}) store \<Rightarrow> op list \<Rightarrow> 'p store" where
  "run s ops = foldl step s ops"


text \<open>
  \<open>added_at s ops i p\<close>: the \<open>i\<close>-th operation of the list \<open>ops\<close>, run from the store
  \<open>s\<close>, is an \<^verbatim>\<open>addProducts\<close> that is given the product \<open>p\<close> and reports success.
\<close>
definition added_at :: "('p::{zero,plus,ord}) store \<Rightarrow> op list \<Rightarrow> nat \<Rightarrow> Product \<Rightarrow> bool" where
  "added_at s ops i p =
     (i < length ops \<and>
      (case ops ! i of
         AddProducts now rnd ps \<Rightarrow>
           Some p \<in> set ps \<and>
           (case fst (addProducts (run s (take i ops)) now rnd ps) of Inl e \<Rightarrow> False | Inr ids \<Rightarrow> True)
       | _ \<Rightarrow> False))"


section \<open>The store of store.go: supported product types\<close>

type_synonym productID_sup = "256 word"
type_synonym orderID_sup = "256 word"

text \<open>
  No operation of this variant writes through a pointer (the caller draws the
  identities, \<^verbatim>\<open>updateProduct\<close> and \<^verbatim>\<open>sellProduct\<close> only write the maps), and none
  compares pointers: products and orders are values here. As in the other variant, a
  pointer inside a non-nil interface value is taken to be non-nil (\<^verbatim>\<open>updateProduct\<close>
  and \<^verbatim>\<open>sellProduct\<close> call \<^verbatim>\<open>product.Type()\<close> first, which dereferences it), and so is
  the \<^verbatim>\<open>*buyer\<close> an order embeds, whose three fields are fields of the order below.
\<close>
record 'p car_sup =
  car_product_sup :: "(productID_sup, 'p) product"
  car_color_sup :: string
  car_make_sup :: string
  car_model_sup :: string

record 'p carAccessory =
  acc_product :: "(productID_sup, 'p) product"
  acc_specifications :: "(string \<times> string list) list"

datatype 'p Product_sup =
    ProductPtr_sup "(productID_sup, 'p) product"
  | CarPtr_sup "'p car_sup"
  | CarAccessoryPtr "'p carAccessory"

record 'p order_sup =
  o_id_sup :: orderID_sup
  o_name_sup :: string
  amountPaid_sup :: 'p
  address_sup :: string
  o_products_sup :: "'p Product_sup option list"

record 'p store_sup =
  st_name_sup :: string
  supportedProducts :: "string \<rightharpoonup> bool"
  productsInStock :: "productID_sup \<rightharpoonup> 'p Product_sup"
  processedOrders_sup :: "orderID_sup \<rightharpoonup> 'p order_sup"

definition newStore_sup :: "string \<Rightarrow> string list \<Rightarrow> 'p store_sup" where
  "newStore_sup nm supported =
     \<lparr>st_name_sup = nm,
      supportedProducts = fold (\<lambda>productType m. m(productType \<mapsto> True)) supported Map.empty,
      productsInStock = Map.empty,
      processedOrders_sup = Map.empty\<rparr>"

subsection \<open>Methods of the products (part_001)\<close>

fun Product_of_sup :: "'p Product_sup \<Rightarrow> (productID_sup, 'p) product" where
  "Product_of_sup (ProductPtr_sup p) = p"
| "Product_of_sup (CarPtr_sup c) = car_product_sup c"
| "Product_of_sup (CarAccessoryPtr c) = acc_product c"

definition ID_sup :: "'p Product_sup \<Rightarrow> productID_sup" where
  "ID_sup p = p_id (Product_of_sup p)"

definition Type_sup :: "'p Product_sup \<Rightarrow> string" where
  "Type_sup p = productType (Product_of_sup p)"

definition Price_sup :: "'p Product_sup \<Rightarrow> 'p" where
  "Price_sup p = price (Product_of_sup p)"

text \<open>\<^verbatim>\<open>Validate\<close> reads the clock: \<open>now\<close> is what \<^verbatim>\<open>time.Now()\<close> returns to it.\<close>
definition product_Validate :: "time \<Rightarrow> (productID_sup, 'p::{zero,ord}) product \<Rightarrow> bool" where
  "product_Validate now p =
     (p_id p \<noteq> 0 \<and> 0 < price p \<and> p_name p \<noteq> [] \<and> length (images p) \<noteq> 0 \<and>
      (case createdAt p of None \<Rightarrow> False | Some t \<Rightarrow> \<not> now < t) \<and>
      (case lastUpdated p of None \<Rightarrow> False | Some t \<Rightarrow> \<not> now < t) \<and>
      productType p \<noteq> [] \<and> length (specifications p) \<noteq> 0)"

fun Validate :: "time \<Rightarrow> ('p::{zero,ord}) Product_sup \<Rightarrow> bool" where
  "Validate now (ProductPtr_sup p) = product_Validate now p"
| "Validate now (CarPtr_sup c) =
     (product_Validate now (car_product_sup c) \<and> car_make_sup c \<noteq> [] \<and>
      car_model_sup c \<noteq> [] \<and> car_color_sup c \<noteq> [])"
| "Validate now (CarAccessoryPtr c) = product_Validate now (acc_product c)"

subsection \<open>Operations of the store (store.go)\<close>

text \<open>\<^verbatim>\<open>supported, ok := s.supportedProducts[t]; !ok || !supported\<close> is \<open>\<not> supported s t\<close>.\<close>
definition supported :: "'p store_sup \<Rightarrow> string \<Rightarrow> bool" where
  "supported s ty = (case supportedProducts s ty of None \<Rightarrow> False | Some b \<Rightarrow> b)"

text \<open>
  The validation loop of \<^verbatim>\<open>updateProduct\<close>. Each iteration that reaches \<^verbatim>\<open>Validate\<close>
  reads the clock once: \<open>clk i\<close> is the clock at the \<open>i\<close>-th product.
\<close>
fun update_check :: "('p::{zero,ord}) store_sup \<Rightarrow> (nat \<Rightarrow> time) \<Rightarrow> nat \<Rightarrow> 'p Product_sup option list
    \<Rightarrow> error + 'p Product_sup list" where
  "update_check s clk i [] = Inr []"
| "update_check s clk i (None # ps) = Inl ErrInvalidProduct"
| "update_check s clk i (Some p # ps) =
     (if \<not> supported s (Type_sup p) then Inl ErrProductNotSupported
      else if \<not> Validate (clk i) p then Inl ErrProductNotValid
      else case update_check s clk (Suc i) ps of
             Inl e \<Rightarrow> Inl e
           | Inr qs \<Rightarrow> Inr (p # qs))"

fun update_insert :: "'p store_sup \<Rightarrow> 'p Product_sup list \<Rightarrow> 'p store_sup" where
  "update_insert s [] = s"
| "update_insert s (p # ps) =
     update_insert (s\<lparr>productsInStock := (productsInStock s)(ID_sup p \<mapsto> p)\<rparr>) ps"

text \<open>\<^verbatim>\<open>updateProduct\<close> returns an error or nil: \<open>Some e\<close> or \<open>None\<close>.\<close>
definition updateProduct :: "('p::{zero,ord}) store_sup \<Rightarrow> (nat \<Rightarrow> time) \<Rightarrow> 'p Product_sup option list
    \<Rightarrow> error option \<times> 'p store_sup" where
  "updateProduct s clk ps =
     (if length ps = 0 then (Some ErrNoProducts, s)
      else case update_check s clk 0 ps of
             Inl e \<Rightarrow> (Some e, s)
           | Inr qs \<Rightarrow> (None, update_insert s qs))"

fun sell_check_sup :: "('p::{zero,ord}) store_sup \<Rightarrow> (nat \<Rightarrow> time) \<Rightarrow> nat \<Rightarrow> 'p Product_sup option list
    \<Rightarrow> error + 'p Product_sup list" where
  "sell_check_sup s clk i [] = Inr []"
| "sell_check_sup s clk i (None # ps) = Inl ErrInvalidProduct"
| "sell_check_sup s clk i (Some p # ps) =
     (if \<not> supported s (Type_sup p) then Inl ErrProductNotSupported
      else if productsInStock s (ID_sup p) = None then Inl ErrProductDoesNotExist
      else if \<not> Validate (clk i) p then Inl ErrProductNotValid
      else case sell_check_sup s clk (Suc i) ps of
             Inl e \<Rightarrow> Inl e
           | Inr qs \<Rightarrow> Inr (p # qs))"

fun sell_delete_sup :: "'p store_sup \<Rightarrow> 'p Product_sup list \<Rightarrow> 'p store_sup" where
  "sell_delete_sup s [] = s"
| "sell_delete_sup s (p # ps) =
     sell_delete_sup (s\<lparr>productsInStock := (productsInStock s)(ID_sup p := None)\<rparr>) ps"

definition sellProduct_sup :: "('p::{zero,ord}) store_sup \<Rightarrow> (nat \<Rightarrow> time) \<Rightarrow> 'p order_sup option
    \<Rightarrow> error option \<times> 'p store_sup" where
  "sellProduct_sup s clk ord =
     (case ord of
        None \<Rightarrow> (Some ErrOrderMissingFields, s)
      | Some order \<Rightarrow>
          (if o_id_sup order = 0 \<or> address_sup order = [] \<or> amountPaid_sup order \<le> 0 \<or>
              o_name_sup order = [] \<or> length (o_products_sup order) = 0
           then (Some ErrOrderMissingFields, s)
           else (case sell_check_sup s clk 0 (o_products_sup order) of
                   Inl e \<Rightarrow> (Some e, s)
                 | Inr ps \<Rightarrow>
                     (let s1 = sell_delete_sup s ps
                      in (None, s1\<lparr>processedOrders_sup := (processedOrders_sup s1)(o_id_sup order \<mapsto> order)\<rparr>)))))"

definition product_sup :: "'p store_sup \<Rightarrow> productID_sup \<Rightarrow> 'p Product_sup option" where
  "product_sup s pid = productsInStock s pid"

definition collect_all_sup :: "('p::plus) Product_sup list \<Rightarrow> 'p Product_sup list \<times> 'p
    \<Rightarrow> 'p Product_sup list \<times> 'p" where
  "collect_all_sup ps acc = fold (\<lambda>p (out, totalCost). (out @ [p], totalCost + Price_sup p)) ps acc"

definition collect_type_sup :: "string \<Rightarrow> ('p::plus) Product_sup list \<Rightarrow> 'p Product_sup list \<times> 'p
    \<Rightarrow> 'p Product_sup list \<times> 'p" where
  "collect_type_sup ty ps acc =
     fold (\<lambda>p (out, totalCost).
             if Type_sup p = ty then (out @ [p], totalCost + Price_sup p) else (out, totalCost)) ps acc"

definition availableProducts_sup :: "('p::{zero,plus}) store_sup \<Rightarrow> productID_sup list \<Rightarrow> string
    \<Rightarrow> error + ('p Product_sup list \<times> 'p)" where
  "availableProducts_sup s ks ty =
     (if ty \<noteq> [] then
        (if \<not> supported s ty then Inl ErrTypeNotSupported
         else Inr (collect_type_sup ty (range_values (productsInStock s) ks) ([], 0)))
      else Inr (collect_all_sup (range_values (productsInStock s) ks) ([], 0)))"

definition sold_slices_sup :: "'p store_sup \<Rightarrow> orderID_sup list \<Rightarrow> 'p Product_sup option list" where
  "sold_slices_sup s oks = concat (map o_products_sup (range_values (processedOrders_sup s) oks))"

text \<open>
  \<^verbatim>\<open>soldProducts\<close>: \<open>None\<close> when a recorded order holds a nil product (the method call
  on it panics), else the error or the products with their total.
\<close>
definition soldProducts_sup :: "('p::{zero,plus}) store_sup \<Rightarrow> orderID_sup list \<Rightarrow> string
    \<Rightarrow> (error + ('p Product_sup list \<times> 'p)) option" where
  "soldProducts_sup s oks ty =
     (if ty \<noteq> [] then
        (if supportedProducts s ty = None then Some (Inl ErrNoProductType)
         else case those (sold_slices_sup s oks) of
                None \<Rightarrow> None
              | Some ps \<Rightarrow> Some (Inr (collect_type_sup ty ps ([], 0))))
      else case those (sold_slices_sup s oks) of
             None \<Rightarrow> None
           | Some ps \<Rightarrow> Some (Inr (collect_all_sup ps ([], 0))))"

definition orders_sup :: "('p::{zero,plus}) store_sup \<Rightarrow> orderID_sup list \<Rightarrow> 'p order_sup list \<times> 'p" where
  "orders_sup s oks =
     fold (\<lambda>order (out, totalPaid). (out @ [order], totalPaid + amountPaid_sup order))
       (range_values (processedOrders_sup s) oks) ([], 0)"

definition deleteProducts_sup :: "'p store_sup \<Rightarrow> productID_sup list \<Rightarrow> (error + int) \<times> 'p store_sup" where
  "deleteProducts_sup s productIDs =
     (if length productIDs = 0 then (Inl ErrNoProductIDs, s)
      else (let (deleted, m) = delete_loop (productsInStock s) 0 productIDs
            in (Inr deleted, s\<lparr>productsInStock := m\<rparr>)))"

fun inStock_loop_sup :: "string \<Rightarrow> 'p Product_sup list \<Rightarrow> bool" where
  "inStock_loop_sup ty [] = False"
| "inStock_loop_sup ty (p # ps) = (if Type_sup p = ty then True else inStock_loop_sup ty ps)"

definition inStock_sup :: "'p store_sup \<Rightarrow> productID_sup list \<Rightarrow> string \<Rightarrow> bool" where
  "inStock_sup s ks ty =
     (if \<not> supported s ty then False
      else inStock_loop_sup ty (range_values (productsInStock s) ks))"

definition updateProductsSupported :: "'p store_sup \<Rightarrow> string \<Rightarrow> bool \<Rightarrow> error option \<times> 'p store_sup" where
  "updateProductsSupported s ty enable =
     (let ok = (supportedProducts s ty \<noteq> None) in
      if \<not> enable \<and> \<not> ok then (Some ErrCannotDisable, s)
      else (None, s\<lparr>supportedProducts := (supportedProducts s)(ty \<mapsto> enable)\<rparr>))"

definition allSupportedProducts :: "'p store_sup \<Rightarrow> (string \<rightharpoonup> bool)" where
  "allSupportedProducts s = supportedProducts s"

text \<open>The operations a caller can run on this store, and the store after each.\<close>
datatype 'p op_sup =
    UpdateProduct "nat \<Rightarrow> time" "'p Product_sup option list"
  | SellProduct_sup "nat \<Rightarrow> time" "'p order_sup option"
  | DeleteProducts_sup "productID_sup list"
  | UpdateProductsSupported string bool
  | QueryProduct_sup productID_sup
  | QueryAvailableProducts_sup "productID_sup list" string
  | QuerySoldProducts_sup "orderID_sup list" string
  | QueryOrders_sup "orderID_sup list"
  | QueryInStock_sup "productID_sup list" string
  | QueryAllSupportedProducts

fun step_sup :: "('p::{zero,plus,ord}) store_sup \<Rightarrow> 'p op_sup \<Rightarrow> 'p store_sup" where
  "step_sup s (UpdateProduct clk ps) = snd (updateProduct s clk ps)"
| "step_sup s (SellProduct_sup clk ord) = snd (sellProduct_sup s clk ord)"
| "step_sup s (DeleteProducts_sup ids) = snd (deleteProducts_sup s ids)"
| "step_sup s (UpdateProductsSupported ty enable) = snd (updateProductsSupported s ty enable)"
| "step_sup s (QueryProduct_sup pid) = s"
| "step_sup s (QueryAvailableProducts_sup ks ty) = s"
| "step_sup s (QuerySoldProducts_sup oks ty) = s"
| "step_sup s (QueryOrders_sup oks) = s"
| "step_sup s (QueryInStock_sup ks ty) = s"
| "step_sup s QueryAllSupportedProducts = s"

definition run_sup :: "('p::{zero,plus,ord}) store_sup \<Rightarrow> 'p op_sup list \<Rightarrow> 'p store_sup" where
  "run_sup s ops = foldl step_sup s ops"

section \<open>Example values\<close>

text \<open>
  Two products like those of \<^verbatim>\<open>main.go\<close>, with integer prices: a used car and a led
  light. In the store of part_000 the car's product struct is at address 0, the light's
  at address 1 (\<open>ex_pmem0\<close> before they are added, \<open>ex_pmem\<close> after), and an order
  for both is at address 0 of the orders' memory; address 1 holds the same order with
  5000000 paid, and every other address an order for the light alone.
\<close>
definition ex_ford :: "(productID, int) product" where
  "ex_ford = \<lparr>p_id = 0, p_name = ''Ford Ecosport'', price = 5000000, productType = ''Car'',
     category = ''Used Cars'', description = ''easy to drive'', images = [''ford.jpg''],
     specifications = [(''Engine'', [''Auto'', ''Petrol''])], lastUpdated = None, createdAt = None\<rparr>"

definition ex_light :: "(productID, int) product" where
  "ex_light = \<lparr>p_id = 0, p_name = ''Led Light'', price = 14000, productType = ''Car Accessory'',
     category = ''Led Lights'', description = ''safety lights'', images = [''light.jpg''],
     specifications = [(''Key Features'', [''Free batteries''])], lastUpdated = None, createdAt = None\<rparr>"

definition ex_car :: car where
  "ex_car = \<lparr>car_product = 0, car_color = ''yellow'', car_make = ''Ford'',
     car_model = ''1.5 Zetec 5dr'', car_year = ''2016''\<rparr>"

definition ex_order :: "int order" where
  "ex_order = \<lparr>o_id = 0, o_name = ''Philemon'', amountPaid = 5014000,
     shippingAddress = ''No 21 Banana Island'',
     o_products = [Some (CarPtr ex_car), Some (ProductPtr 1)]\<rparr>"

definition ex_pmem0 :: "addr \<Rightarrow> (productID, int) product" where
  "ex_pmem0 a = (if a = 0 then ex_ford else ex_light)"

text \<open>The outcomes of \<^verbatim>\<open>rand.Read\<close>: the identity 11, then 12, and no error.\<close>
definition ex_rnd :: "nat \<Rightarrow> productID rand_read" where
  "ex_rnd i = (if i = 0 then 11 else 12, False)"

definition ex_pmem :: "addr \<Rightarrow> (productID, int) product" where
  "ex_pmem = ex_pmem0
     (0 := ex_ford\<lparr>p_id := 11, lastUpdated := Some 100, createdAt := Some 100\<rparr>,
      1 := ex_light\<lparr>p_id := 12, lastUpdated := Some 100, createdAt := Some 100\<rparr>)"

definition ex_omem :: "addr \<Rightarrow> int order" where
  "ex_omem a =
     (if a = 0 then ex_order
      else if a = 1 then ex_order\<lparr>amountPaid := 5000000\<rparr>
      else ex_order\<lparr>amountPaid := 14000, o_products := [Some (ProductPtr 1)]\<rparr>)"

text \<open>
  The store of part_000 with both products in stock, under the identities 11 and 12: the
  store after \<^verbatim>\<open>addProducts\<close> at the instant 100 with the outcomes above, from a fresh
  store and the memory \<open>ex_pmem0\<close>.
\<close>
definition ex_store :: "int store" where
  "ex_store = \<lparr>st_name = ''Auto Shop'',
     products = [11 \<mapsto> CarPtr ex_car, 12 \<mapsto> ProductPtr 1],
     processedOrders = Map.empty, pmem = ex_pmem, omem = ex_omem\<rparr>"

text \<open>
  The same for the store of store.go: the caller has drawn the identities 1 and 3 and
  set the dates to the instant 50; the clock reads 100 ever after.
\<close>
definition ex_ford_sup :: "(productID_sup, int) product" where
  "ex_ford_sup = \<lparr>p_id = 1, p_name = ''Ford Ecosport'', price = 5000000, productType = ''Car'',
     category = ''Used Cars'', description = ''easy to drive'', images = [''ford.jpg''],
     specifications = [(''Engine'', [''Auto'', ''Petrol''])],
     lastUpdated = Some 50, createdAt = Some 50\<rparr>"

definition ex_light_sup :: "(productID_sup, int) product" where
  "ex_light_sup = \<lparr>p_id = 3, p_name = ''Led Light'', price = 14000, productType = ''Car Accessory'',
     category = ''Led Lights'', description = ''safety lights'', images = [''light.jpg''],
     specifications = [(''Key Features'', [''Free batteries''])],
     lastUpdated = Some 50, createdAt = Some 50\<rparr>"

definition ex_car_sup :: "int Product_sup" where
  "ex_car_sup = CarPtr_sup \<lparr>car_product_sup = ex_ford_sup, car_color_sup = ''yellow'',
     car_make_sup = ''Ford'', car_model_sup = ''1.5 Zetec 5dr 2016''\<rparr>"

definition ex_accessory :: "int Product_sup" where
  "ex_accessory = CarAccessoryPtr \<lparr>acc_product = ex_light_sup,
     acc_specifications = [(''Key Features'', [''Free batteries''])]\<rparr>"

definition ex_clk :: "nat \<Rightarrow> time" where
  "ex_clk i = 100"

definition ex_store_sup :: "int store_sup" where
  "ex_store_sup = \<lparr>st_name_sup = ''Auto Shop'',
     supportedProducts = [''Car'' \<mapsto> True, ''Car Accessory'' \<mapsto> True],
     productsInStock = [1 \<mapsto> ex_car_sup, 3 \<mapsto> ex_accessory],
     processedOrders_sup = Map.empty\<rparr>"

text \<open>A fresh store of store.go that supports the two types.\<close>
definition ex_new_sup :: "int store_sup" where
  "ex_new_sup = newStore_sup ''Auto Shop'' [''Car'', ''Car Accessory'']"

text \<open>
  The example of the specification: an order for both products that pays 5000000, less
  than the 5014000 the two cost. It carries the identity 7, which the caller drew.
\<close>
definition ex_order_sup :: "int order_sup" where
  "ex_order_sup = \<lparr>o_id_sup = 7, o_name_sup = ''Philemon'', amountPaid_sup = 5000000,
     address_sup = ''No 21 Banana Island'',
     o_products_sup = [Some ex_car_sup, Some ex_accessory]\<rparr>"

text \<open>
  A store of store.go after three operations: both products added, the order above
  sold, both products added again.
\<close>
definition ex_reached_sup :: "int store_sup" where
  "ex_reached_sup = run_sup ex_new_sup
     [UpdateProduct ex_clk [Some ex_car_sup, Some ex_accessory],
      SellProduct_sup ex_clk (Some ex_order_sup),
      UpdateProduct ex_clk [Some ex_car_sup, Some ex_accessory]]"

text \<open>The example store of part_000 after the order at address 0 was sold.\<close>
definition ex_sold :: "int store" where
  "ex_sold = snd (sellProduct ex_store (77, False) (Some 0))"

text \<open>
  A store of store.go after two operations: both products added, then the type of the
  car disabled.
\<close>
definition ex_disabled_sup :: "int store_sup" where
  "ex_disabled_sup = run_sup ex_new_sup
     [UpdateProduct ex_clk [Some ex_car_sup, Some ex_accessory],
      UpdateProductsSupported ''Car'' False]"

text \<open>
  Operations on that fresh store: the two products are added, a third type is enabled
  and the type of the light is disabled.
\<close>
definition ex_ops_sup :: "int op_sup list" where
  "ex_ops_sup = [UpdateProduct ex_clk [Some ex_car_sup, Some ex_accessory],
      UpdateProductsSupported ''Spare Parts'' True,
      UpdateProductsSupported ''Car Accessory'' False]"

text \<open>
  The fresh store of part_000 over the memory in which the products have no identity
  yet, and a source of randomness that fails and leaves every buffer as it was, zero.
\<close>
definition ex_fresh :: "int store" where
  "ex_fresh = newStore ''Auto Shop'' ex_pmem0 ex_omem"






text \<open>
  Two calls of \<^verbatim>\<open>addProducts\<close>, the car and then the light, each with the one read 11.
\<close>
definition ex_adds_same :: "op list" where
  "ex_adds_same = [AddProducts 100 (\<lambda>i. (11, False)) [Some (CarPtr ex_car)],
                   AddProducts 200 (\<lambda>i. (11, False)) [Some (ProductPtr 1)]]"

text \<open>
  For store.go: another product that carries the identity 1 of the car and has the type
  of the light, and an order for it.
\<close>
definition ex_forged :: "int Product_sup" where
  "ex_forged = ProductPtr_sup (ex_light_sup\<lparr>p_id := 1\<rparr>)"

definition ex_order_forged :: "int order_sup" where
  "ex_order_forged = ex_order_sup\<lparr>o_products_sup := [Some ex_forged]\<rparr>"

lemmas ex_simps = ex_store_def ex_omem_def ex_order_def ex_pmem_def ex_pmem0_def ex_rnd_def
  ex_car_def ex_ford_def ex_light_def
lemmas ex_sup_simps = ex_new_sup_def ex_store_sup_def ex_order_sup_def ex_car_sup_def ex_accessory_def
  ex_ford_sup_def ex_light_sup_def ex_clk_def
lemmas method_simps = ID_def Type_def Price_def product_IsValid_def
lemmas add_simps = addProducts_def add_step_def generateProductID_def newStore_def Let_def
lemmas method_sup_simps = ID_sup_def Type_sup_def Price_sup_def product_Validate_def supported_def

section \<open>Loops and map ranges\<close>

lemma delete_loop_eq:
  "delete_loop m d ks = (d + int (card (set ks \<inter> dom m)), m |` (- set ks))"
proof (induction ks arbitrary: m d)
  case Nil
  then show ?case by simp
next
  case (Cons k ks)
  show ?case
  proof (cases "m k")
    case None
    then have "set (k # ks) \<inter> dom m = set ks \<inter> dom m" by auto
    moreover have "m |` (- set (k # ks)) = m |` (- set ks)"
      using None by (auto simp: restrict_map_def fun_eq_iff)
    ultimately show ?thesis using None Cons.IH[of m d] by simp
  next
    case (Some v)
    have fin: "finite (set ks \<inter> dom (m(k := None)))" by simp
    have "set (k # ks) \<inter> dom m = insert k (set ks \<inter> dom (m(k := None)))"
      using Some by auto
    moreover have "k \<notin> set ks \<inter> dom (m(k := None))" by simp
    ultimately have c: "card (set (k # ks) \<inter> dom m) = Suc (card (set ks \<inter> dom (m(k := None))))"
      using fin by (simp del: dom_fun_upd)
    have r: "(m(k := None)) |` (- set ks) = m |` (- set (k # ks))"
      by (auto simp: restrict_map_def fun_eq_iff)
    have "delete_loop m d (k # ks) = delete_loop (m(k := None)) (d + 1) ks"
      using Some by simp
    also have "\<dots> = (d + 1 + int (card (set ks \<inter> dom (m(k := None)))), (m(k := None)) |` (- set ks))"
      by (rule Cons.IH)
    also have "\<dots> = (d + int (card (set (k # ks) \<inter> dom m)), m |` (- set (k # ks)))"
      unfolding c r by simp
    finally show ?thesis .
  qed
qed

lemma range_values_visits: "visits m ks \<Longrightarrow> range_values m ks = map (\<lambda>k. the (m k)) ks"
  unfolding visits_def range_values_def List.map_filter_def
  by (auto simp: filter_id_conv intro!: map_cong)

lemma set_range_values: "visits m ks \<Longrightarrow> set (range_values m ks) = ran m"
  unfolding visits_def range_values_def List.map_filter_def
  by (force simp: ran_def dom_def image_iff)

lemma length_filter_range_values:
  assumes "visits m ks"
  shows "length (filter P (range_values m ks)) = card {k \<in> dom m. P (the (m k))}"
proof -
  from assms have d: "distinct ks" and e: "set ks = dom m" by (simp_all add: visits_def)
  have "length (filter P (range_values m ks)) = length (filter (\<lambda>k. P (the (m k))) ks)"
    by (simp add: range_values_visits[OF assms] filter_map o_def)
  also have "\<dots> = card ({k. P (the (m k))} \<inter> set ks)"
    using d by (rule distinct_length_filter)
  also have "{k. P (the (m k))} \<inter> set ks = {k \<in> dom m. P (the (m k))}"
    using e by auto
  finally show ?thesis .
qed

lemma collect_type_eq:
  "collect_type s ty ps (out, t) =
     (out @ filter (\<lambda>p. Type s p = ty) ps,
      foldl (+) t (map (Price s) (filter (\<lambda>p. Type s p = ty) ps)))"
  unfolding collect_type_def by (induction ps arbitrary: out t) simp_all

lemma collect_all_eq:
  "collect_all s ps (out, t) = (out @ ps, foldl (+) t (map (Price s) ps))"
  unfolding collect_all_def by (induction ps arbitrary: out t) simp_all

lemma collect_type_sup_eq:
  "collect_type_sup ty ps (out, t) =
     (out @ filter (\<lambda>p. Type_sup p = ty) ps,
      foldl (+) t (map Price_sup (filter (\<lambda>p. Type_sup p = ty) ps)))"
  unfolding collect_type_sup_def by (induction ps arbitrary: out t) simp_all

lemma collect_all_sup_eq:
  "collect_all_sup ps (out, t) = (out @ ps, foldl (+) t (map Price_sup ps))"
  unfolding collect_all_sup_def by (induction ps arbitrary: out t) simp_all

lemma those_no_None: "None \<notin> set xs \<Longrightarrow> those xs = Some (map the xs)"
proof (induction xs)
  case Nil
  then show ?case by simp
next
  case (Cons a xs)
  then show ?case by (cases a) auto
qed

lemma those_Some_set: "those xs = Some ys \<Longrightarrow> xs = map Some ys"
  by (induction xs arbitrary: ys) (auto split: option.splits)

lemma those_None_iff: "those xs = None \<longleftrightarrow> None \<in> set xs"
  by (induction xs) (auto split: option.splits)

lemma set_map_the: "None \<notin> set xs \<Longrightarrow> set (map the xs) = {p. Some p \<in> set xs}"
  by (induction xs) auto

section \<open>The example stores, evaluated\<close>

lemma ex_sold_eq:
  "ex_sold = ex_store\<lparr>products := Map.empty, processedOrders := [77 \<mapsto> 0],
                     omem := ex_omem(0 := ex_order\<lparr>o_id := 77\<rparr>)\<rparr>"
  by (simp add: ex_sold_def sellProduct_def generateOrderID_def Let_def ex_simps method_simps)

lemma ex_reached_sup_eq:
  "ex_reached_sup = ex_store_sup\<lparr>processedOrders_sup := [7 \<mapsto> ex_order_sup]\<rparr>"
  by (simp add: ex_reached_sup_def run_sup_def newStore_sup_def updateProduct_def sellProduct_sup_def
       ex_sup_simps method_sup_simps)

lemma ex_disabled_sup_eq:
  "ex_disabled_sup = ex_store_sup\<lparr>supportedProducts := [''Car Accessory'' \<mapsto> True, ''Car'' \<mapsto> False]\<rparr>"
  by (simp add: ex_disabled_sup_def run_sup_def newStore_sup_def updateProduct_def
       updateProductsSupported_def ex_sup_simps method_sup_simps)


lemma ex_store_sup_reached:
  "updateProduct ex_new_sup ex_clk
     [Some ex_car_sup, Some ex_accessory] = (None, ex_store_sup)"
  by (simp add: newStore_sup_def updateProduct_def ex_sup_simps method_sup_simps)

section \<open>Deleting products\<close>

text \<open>
  C7. In both variants, \<^verbatim>\<open>deleteProducts\<close> with a non-empty list of identities succeeds,
  whether or not the identities are in stock; it returns the number of listed
  identities that were keys of the in-stock collection and leaves the collection
  without the listed identities, every other entry and the rest of the store as they
  were. With an empty list it returns an error and the store is unchanged.
\<close>
theorem deleteProducts_removes_present:
  "(productIDs \<noteq> [] \<longrightarrow>
      deleteProducts s productIDs =
        (Inr (int (card (set productIDs \<inter> dom (products s)))),
         s\<lparr>products := products s |` (- set productIDs)\<rparr>)) \<and>
   deleteProducts s [] = (Inl ErrNoProductIDs, s) \<and>
   (productIDs' \<noteq> [] \<longrightarrow>
      deleteProducts_sup t productIDs' =
        (Inr (int (card (set productIDs' \<inter> dom (productsInStock t)))),
         t\<lparr>productsInStock := productsInStock t |` (- set productIDs')\<rparr>)) \<and>
   deleteProducts_sup t [] = (Inl ErrNoProductIDs, t)"
  by (simp add: deleteProducts_def deleteProducts_sup_def delete_loop_eq)

theorem deleteProducts_removes_present_witness:
  "fst (deleteProducts ex_store [11, 13, 11]) = Inr 1 \<and>
   products (snd (deleteProducts ex_store [11, 13, 11])) 11 = None \<and>
   products (snd (deleteProducts ex_store [11, 13, 11])) 12 = Some (ProductPtr 1) \<and>
   products ex_store 11 = Some (CarPtr ex_car) \<and> products ex_store 13 = None \<and>
   fst (deleteProducts_sup ex_store_sup [3, 2]) = Inr 1 \<and>
   productsInStock (snd (deleteProducts_sup ex_store_sup [3, 2])) 3 = None \<and>
   productsInStock (snd (deleteProducts_sup ex_store_sup [3, 2])) 1 = Some ex_car_sup \<and>
   productsInStock ex_store_sup 3 = Some ex_accessory \<and> productsInStock ex_store_sup 2 = None"
proof -
  note inst = deleteProducts_removes_present [of "[11, 13, 11]" ex_store "[3, 2]" ex_store_sup]
  have e: "deleteProducts ex_store [11, 13, 11] =
      (Inr (int (card (set [11, 13, 11] \<inter> dom (products ex_store)))),
       ex_store\<lparr>products := products ex_store |` (- set [11, 13, 11])\<rparr>)"
    using inst by blast
  have c: "set [11, 13, 11] \<inter> dom (products ex_store) = {11}"
    by (auto simp: ex_store_def)
  have e': "deleteProducts_sup ex_store_sup [3, 2] =
      (Inr (int (card (set [3, 2] \<inter> dom (productsInStock ex_store_sup)))),
       ex_store_sup\<lparr>productsInStock := productsInStock ex_store_sup |` (- set [3, 2])\<rparr>)"
    using inst by blast
  have c': "set [3, 2] \<inter> dom (productsInStock ex_store_sup) = {3}"
    by (auto simp: ex_store_sup_def)
  show ?thesis unfolding e c e' c'
    by (simp add: ex_store_def ex_store_sup_def restrict_map_def)
qed

section \<open>Selling products\<close>

subsection \<open>The two loops of sellProduct, part_000\<close>

lemma ID_products_update [simp]: "ID (s\<lparr>products := m\<rparr>) p = ID s p"
  by (simp add: ID_def)

lemma sell_check_Inr:
  "sell_check s t0 ops = Inr (t, ps) \<Longrightarrow>
     ops = map Some ps \<and> t = foldl (+) t0 (map (Price s) ps) \<and>
     (\<forall>p\<in>set ps. products s (ID s p) \<noteq> None \<and> IsValid s p)"
proof (induction ops arbitrary: t0 ps)
  case Nil
  then show ?case by simp
next
  case (Cons x ops)
  show ?case
  proof (cases x)
    case None
    with Cons.prems show ?thesis by simp
  next
    case (Some p)
    with Cons.prems obtain qs where
      ok: "products s (ID s p) \<noteq> None" "IsValid s p" and
      rec: "sell_check s (t0 + Price s p) ops = Inr (t, qs)" and ps: "ps = p # qs"
      by (auto split: if_splits sum.splits)
    from Cons.IH[OF rec] show ?thesis using ok ps Some by simp
  qed
qed

lemma sell_delete_other [simp]:
  "processedOrders (sell_delete s ps) = processedOrders s"
  "pmem (sell_delete s ps) = pmem s"
  "omem (sell_delete s ps) = omem s"
  "st_name (sell_delete s ps) = st_name s"
  by (induction ps arbitrary: s) simp_all

lemma sell_delete_ID [simp]: "ID (sell_delete s ps) p = ID s p"
  by (simp add: ID_def)

lemma sell_delete_products_at:
  "products (sell_delete s ps) k = (if k \<in> ID s ` set ps then None else products s k)"
  by (induction ps arbitrary: s) auto

lemma sell_delete_eq:
  "sell_delete s ps = s\<lparr>products := products s |` (- ID s ` set ps)\<rparr>"
  by (rule store.equality)
     (auto simp: fun_eq_iff restrict_map_def sell_delete_products_at)

lemma sellProduct_error_unchanged:
  "sellProduct s rnd ord = (Inl e, s') \<Longrightarrow> s' = s"
  by (auto simp: sellProduct_def Let_def split: option.splits if_splits sum.splits prod.splits)

text \<open>What an accepted sale has checked and what it has written.\<close>
lemma sellProduct_accepted:
  assumes "sellProduct s rnd ord = (Inr oid, s')"
  shows "\<exists>a ps. ord = Some a \<and> o_products (omem s a) = map Some ps \<and> ps \<noteq> [] \<and>
           (\<forall>p\<in>set ps. products s (ID s p) \<noteq> None \<and> IsValid s p) \<and>
           \<not> amountPaid (omem s a) < foldl (+) 0 (map (Price s) ps) \<and>
           oid = fst rnd \<and>
           s' = s\<lparr>products := products s |` (- ID s ` set ps),
                  processedOrders := (processedOrders s)(oid \<mapsto> a),
                  omem := (omem s)(a := (omem s a)\<lparr>o_id := oid\<rparr>)\<rparr>"
proof -
  from assms obtain a where a: "ord = Some a"
    by (auto simp: sellProduct_def split: option.splits)
  from assms a obtain t ps where
    chk: "sell_check s 0 (o_products (omem s a)) = Inr (t, ps)" and
    ne: "o_products (omem s a) \<noteq> []" and
    paid: "\<not> amountPaid (omem s a) < t" and
    res: "(Inr oid, s') = (let s1 = sell_delete s ps; s2 = generateOrderID s1 a rnd; oid = o_id (omem s2 a)
            in (Inr oid, s2\<lparr>processedOrders := (processedOrders s2)(oid \<mapsto> a)\<rparr>))"
    by (auto simp: sellProduct_def Let_def split: if_splits sum.splits prod.splits)
  note c = sell_check_Inr[OF chk]
  from res have "oid = fst rnd"
    by (simp add: Let_def generateOrderID_def)
  moreover from res have "s' = s\<lparr>products := products s |` (- ID s ` set ps),
                  processedOrders := (processedOrders s)(fst rnd \<mapsto> a),
                  omem := (omem s)(a := (omem s a)\<lparr>o_id := fst rnd\<rparr>)\<rparr>"
    by (simp add: Let_def generateOrderID_def sell_delete_eq)
  ultimately show ?thesis using a c ne paid by auto
qed

subsection \<open>The two loops of sellProduct, store.go\<close>

lemma sell_check_sup_Inr:
  "sell_check_sup s clk i ops = Inr ps \<Longrightarrow>
     ops = map Some ps \<and>
     (\<forall>p\<in>set ps. supported s (Type_sup p) \<and> productsInStock s (ID_sup p) \<noteq> None)"
proof (induction ops arbitrary: i ps)
  case Nil
  then show ?case by simp
next
  case (Cons x ops)
  show ?case
  proof (cases x)
    case None
    with Cons.prems show ?thesis by simp
  next
    case (Some p)
    with Cons.prems obtain qs where
      ok: "supported s (Type_sup p)" "productsInStock s (ID_sup p) \<noteq> None" and
      rec: "sell_check_sup s clk (Suc i) ops = Inr qs" and ps: "ps = p # qs"
      by (auto split: if_splits sum.splits)
    from Cons.IH[OF rec] show ?thesis using ok ps Some by simp
  qed
qed

lemma sell_delete_sup_other [simp]:
  "processedOrders_sup (sell_delete_sup s ps) = processedOrders_sup s"
  "supportedProducts (sell_delete_sup s ps) = supportedProducts s"
  "st_name_sup (sell_delete_sup s ps) = st_name_sup s"
  by (induction ps arbitrary: s) simp_all

lemma sell_delete_sup_products_at:
  "productsInStock (sell_delete_sup s ps) k = (if k \<in> ID_sup ` set ps then None else productsInStock s k)"
  by (induction ps arbitrary: s) auto

lemma sell_delete_sup_eq:
  "sell_delete_sup s ps = s\<lparr>productsInStock := productsInStock s |` (- ID_sup ` set ps)\<rparr>"
  by (rule store_sup.equality)
     (auto simp: fun_eq_iff restrict_map_def sell_delete_sup_products_at)

lemma sellProduct_sup_error_unchanged:
  "sellProduct_sup s clk ord = (Some e, s') \<Longrightarrow> s' = s"
  by (auto simp: sellProduct_sup_def Let_def split: option.splits if_splits sum.splits)

lemma sellProduct_sup_accepted:
  assumes "sellProduct_sup s clk ord = (None, s')"
  shows "\<exists>order ps. ord = Some order \<and> o_products_sup order = map Some ps \<and> ps \<noteq> [] \<and>
           o_id_sup order \<noteq> 0 \<and>
           (\<forall>p\<in>set ps. supported s (Type_sup p) \<and> productsInStock s (ID_sup p) \<noteq> None) \<and>
           s' = s\<lparr>productsInStock := productsInStock s |` (- ID_sup ` set ps),
                  processedOrders_sup := (processedOrders_sup s)(o_id_sup order \<mapsto> order)\<rparr>"
proof -
  from assms obtain order where a: "ord = Some order"
    by (auto simp: sellProduct_sup_def split: option.splits)
  from assms a obtain ps where
    chk: "sell_check_sup s clk 0 (o_products_sup order) = Inr ps" and
    ne: "o_products_sup order \<noteq> []" "o_id_sup order \<noteq> 0" and
    res: "s' = (sell_delete_sup s ps)\<lparr>processedOrders_sup :=
                  (processedOrders_sup (sell_delete_sup s ps))(o_id_sup order \<mapsto> order)\<rparr>"
    by (auto simp: sellProduct_sup_def Let_def split: if_splits sum.splits)
  note c = sell_check_sup_Inr[OF chk]
  from res have "s' = s\<lparr>productsInStock := productsInStock s |` (- ID_sup ` set ps),
                  processedOrders_sup := (processedOrders_sup s)(o_id_sup order \<mapsto> order)\<rparr>"
    by (simp add: sell_delete_sup_eq)
  then show ?thesis using a c ne by auto
qed

subsection \<open>A product that is not in stock\<close>

text \<open>
  C4. In both variants, when one of the products of an order has an identity that is
  not a key of the in-stock collection, \<^verbatim>\<open>sellProduct\<close> returns an error and the
  store it returns is the store it was given: the in-stock collection, the processed
  orders and (in part_000) the product and order objects are unchanged.
\<close>
theorem sellProduct_missing_product_fails:
  "(Some p \<in> set (o_products (omem s a)) \<and> products s (ID s p) = None \<longrightarrow>
      (\<exists>e. sellProduct s rnd (Some a) = (Inl e, s))) \<and>
   (Some q \<in> set (o_products_sup order) \<and> productsInStock t (ID_sup q) = None \<longrightarrow>
      (\<exists>e. sellProduct_sup t clk (Some order) = (Some e, t)))"
proof (intro conjI impI)
  assume h: "Some p \<in> set (o_products (omem s a)) \<and> products s (ID s p) = None"
  obtain r s' where r: "sellProduct s rnd (Some a) = (r, s')" by (cases "sellProduct s rnd (Some a)")
  show "\<exists>e. sellProduct s rnd (Some a) = (Inl e, s)"
  proof (cases r)
    case (Inl e)
    with r sellProduct_error_unchanged[of s rnd "Some a" e s'] show ?thesis by simp
  next
    case (Inr oid)
    with r sellProduct_accepted[of s rnd "Some a" oid s'] h show ?thesis by fastforce
  qed
next
  assume h: "Some q \<in> set (o_products_sup order) \<and> productsInStock t (ID_sup q) = None"
  obtain r t' where r: "sellProduct_sup t clk (Some order) = (r, t')"
    by (cases "sellProduct_sup t clk (Some order)")
  show "\<exists>e. sellProduct_sup t clk (Some order) = (Some e, t)"
  proof (cases r)
    case (Some e)
    with r sellProduct_sup_error_unchanged[of t clk "Some order" e t'] show ?thesis by simp
  next
    case None
    with r sellProduct_sup_accepted[of t clk "Some order" t'] h show ?thesis by fastforce
  qed
qed

text \<open>
  The example stores with the led light taken out of stock, and the orders for the car
  and the light.
\<close>
theorem sellProduct_missing_product_fails_witness:
  "Some (ProductPtr 1) \<in> set (o_products (omem (ex_store\<lparr>products := [11 \<mapsto> CarPtr ex_car]\<rparr>) 0)) \<and>
   products (ex_store\<lparr>products := [11 \<mapsto> CarPtr ex_car]\<rparr>)
     (ID (ex_store\<lparr>products := [11 \<mapsto> CarPtr ex_car]\<rparr>) (ProductPtr 1)) = None \<and>
   (\<exists>e. sellProduct (ex_store\<lparr>products := [11 \<mapsto> CarPtr ex_car]\<rparr>) (77, False) (Some 0) =
          (Inl e, ex_store\<lparr>products := [11 \<mapsto> CarPtr ex_car]\<rparr>)) \<and>
   Some ex_accessory \<in> set (o_products_sup ex_order_sup) \<and>
   productsInStock (ex_store_sup\<lparr>productsInStock := [1 \<mapsto> ex_car_sup]\<rparr>) (ID_sup ex_accessory) = None \<and>
   (\<exists>e. sellProduct_sup (ex_store_sup\<lparr>productsInStock := [1 \<mapsto> ex_car_sup]\<rparr>) ex_clk (Some ex_order_sup) =
          (Some e, ex_store_sup\<lparr>productsInStock := [1 \<mapsto> ex_car_sup]\<rparr>))"
proof -
  let ?s = "ex_store\<lparr>products := [11 \<mapsto> CarPtr ex_car]\<rparr>"
  let ?t = "ex_store_sup\<lparr>productsInStock := [1 \<mapsto> ex_car_sup]\<rparr>"
  have h1: "Some (ProductPtr 1) \<in> set (o_products (omem ?s 0)) \<and> products ?s (ID ?s (ProductPtr 1)) = None"
    by (simp add: ex_simps method_simps)
  have h2: "Some ex_accessory \<in> set (o_products_sup ex_order_sup) \<and>
      productsInStock ?t (ID_sup ex_accessory) = None"
    by (simp add: ex_sup_simps method_sup_simps)
  from sellProduct_missing_product_fails
         [of "ProductPtr 1" ?s 0 "(77, False)" ex_accessory ex_order_sup ?t ex_clk] h1 h2
  show ?thesis by blast
qed

subsection \<open>An accepted sale\<close>

text \<open>
  C3 (as amended). In both variants an accepted sale removes from the in-stock
  collection exactly the entries whose keys are the identities of the order's products
  and leaves every other in-stock entry as it was, and it writes exactly one entry of
  the processed orders: the order, holding those products, under its identity (in
  part_000 the identity just drawn, which is written into the order; in store.go the
  identity the caller gave). Every entry under another identity is unchanged, so the
  entry is a new one when that identity was not a key before, and replaces the order
  recorded under that identity otherwise. Nothing else changes.
\<close>
theorem sellProduct_accepted_effect:
  "(sellProduct s rnd ord = (Inr oid, s') \<longrightarrow>
      (\<exists>a ps. ord = Some a \<and> o_products (omem s a) = map Some ps \<and> oid = fst rnd \<and>
         s' = s\<lparr>products := products s |` (- ID s ` set ps),
                processedOrders := (processedOrders s)(oid \<mapsto> a),
                omem := (omem s)(a := (omem s a)\<lparr>o_id := oid\<rparr>)\<rparr>)) \<and>
   (sellProduct_sup t clk ord' = (None, t') \<longrightarrow>
      (\<exists>order ps. ord' = Some order \<and> o_products_sup order = map Some ps \<and>
         t' = t\<lparr>productsInStock := productsInStock t |` (- ID_sup ` set ps),
                processedOrders_sup := (processedOrders_sup t)(o_id_sup order \<mapsto> order)\<rparr>))"
proof (intro conjI impI)
  assume "sellProduct s rnd ord = (Inr oid, s')"
  from sellProduct_accepted[OF this]
  show "\<exists>a ps. ord = Some a \<and> o_products (omem s a) = map Some ps \<and> oid = fst rnd \<and>
         s' = s\<lparr>products := products s |` (- ID s ` set ps),
                processedOrders := (processedOrders s)(oid \<mapsto> a),
                omem := (omem s)(a := (omem s a)\<lparr>o_id := oid\<rparr>)\<rparr>"
    by blast
next
  assume "sellProduct_sup t clk ord' = (None, t')"
  from sellProduct_sup_accepted[OF this]
  show "\<exists>order ps. ord' = Some order \<and> o_products_sup order = map Some ps \<and>
         t' = t\<lparr>productsInStock := productsInStock t |` (- ID_sup ` set ps),
                processedOrders_sup := (processedOrders_sup t)(o_id_sup order \<mapsto> order)\<rparr>"
    by blast
qed

text \<open>
  The order for the car and the light, which pays the 5014000 they cost, in the
  example store of part_000; the order of the example store of store.go.
\<close>
theorem sellProduct_accepted_effect_witness:
  "fst (sellProduct ex_store (77, False) (Some 0)) = Inr 77 \<and>
   (\<exists>a ps. Some (0::addr) = Some a \<and> o_products (omem ex_store a) = map Some ps \<and>
      (77::orderID) = fst (77::orderID, False) \<and>
      snd (sellProduct ex_store (77, False) (Some 0)) =
        ex_store\<lparr>products := products ex_store |` (- ID ex_store ` set ps),
                 processedOrders := (processedOrders ex_store)(77 \<mapsto> a),
                 omem := (omem ex_store)(a := (omem ex_store a)\<lparr>o_id := 77\<rparr>)\<rparr>) \<and>
   fst (sellProduct_sup ex_store_sup ex_clk (Some ex_order_sup)) = None \<and>
   (\<exists>order ps. Some ex_order_sup = Some order \<and> o_products_sup order = map Some ps \<and>
      snd (sellProduct_sup ex_store_sup ex_clk (Some ex_order_sup)) =
        ex_store_sup\<lparr>productsInStock := productsInStock ex_store_sup |` (- ID_sup ` set ps),
                     processedOrders_sup := (processedOrders_sup ex_store_sup)(o_id_sup order \<mapsto> order)\<rparr>)"
proof -
  have a: "fst (sellProduct ex_store (77, False) (Some 0)) = Inr 77"
    by (simp add: sellProduct_def generateOrderID_def Let_def ex_simps method_simps)
  then have a': "sellProduct ex_store (77, False) (Some 0) =
      (Inr 77, snd (sellProduct ex_store (77, False) (Some 0)))"
    by (simp add: prod_eq_iff)
  have b: "fst (sellProduct_sup ex_store_sup ex_clk (Some ex_order_sup)) = None"
    by (simp add: sellProduct_sup_def Let_def ex_sup_simps method_sup_simps)
  then have b': "sellProduct_sup ex_store_sup ex_clk (Some ex_order_sup) =
      (None, snd (sellProduct_sup ex_store_sup ex_clk (Some ex_order_sup)))"
    by (simp add: prod_eq_iff)
  from sellProduct_accepted_effect
         [of ex_store "(77, False)" "Some 0" 77 "snd (sellProduct ex_store (77, False) (Some 0))"
             ex_store_sup ex_clk "Some ex_order_sup"
             "snd (sellProduct_sup ex_store_sup ex_clk (Some ex_order_sup))"] a a' b b'
  show ?thesis by blast
qed

text \<open>
  The claim as it was stated (exactly one new order is added) fails in store.go, where
  the caller gives the order its identity: in the store reached by adding the two
  products, selling the order, and adding the two products again, the same order is
  accepted once more, and the processed orders are what they were: no order is added.
\<close>
theorem sellProduct_sup_same_order_twice:
  "processedOrders_sup ex_reached_sup 7 = Some ex_order_sup \<and>
   fst (sellProduct_sup ex_reached_sup ex_clk (Some ex_order_sup)) = None \<and>
   processedOrders_sup (snd (sellProduct_sup ex_reached_sup ex_clk (Some ex_order_sup))) =
     processedOrders_sup ex_reached_sup"
  by (simp add: ex_reached_sup_def run_sup_def newStore_sup_def updateProduct_def sellProduct_sup_def
       ex_sup_simps method_sup_simps)

subsection \<open>An order that pays too little\<close>

text \<open>
  \<^verbatim>\<open>sellProduct\<close> of part_000 compares the amount paid with the total it has added up
  (from zero, in the order of the slice): an order that pays less than the prices of
  its products add up to is refused, and the store is unchanged. A nil product adds
  nothing to the sum of the hypothesis, and the order is refused for it.
\<close>
lemma sellProduct_rejects_underpayment:
  assumes "amountPaid (omem s a) <
           foldl (+) 0 (map (Price s) (List.map_filter (\<lambda>x. x) (o_products (omem s a))))"
  shows "\<exists>e. sellProduct s rnd (Some a) = (Inl e, s)"
proof (cases "sellProduct s rnd (Some a)")
  case (Pair r s')
  show ?thesis
  proof (cases r)
    case (Inl e)
    with Pair sellProduct_error_unchanged[of s rnd "Some a" e s'] show ?thesis by simp
  next
    case (Inr oid)
    with Pair sellProduct_accepted[of s rnd "Some a" oid s'] obtain ps where
      ps: "o_products (omem s a) = map Some ps" and
      paid: "\<not> amountPaid (omem s a) < foldl (+) 0 (map (Price s) ps)"
      by auto
    have "List.map_filter (\<lambda>x. x) (map Some ps) = ps"
      by (induction ps) simp_all
    with assms ps paid show ?thesis by simp
  qed
qed

lemma sellProduct_rejects_underpayment_example:
  "sellProduct ex_store (77, False) (Some 1) = (Inl ErrNotEnoughPaid, ex_store)"
  by (simp add: sellProduct_def generateOrderID_def Let_def ex_simps method_simps)

text \<open>
  C1. \<^verbatim>\<open>sellProduct\<close> of store.go tests that the amount paid is positive and never
  compares it with a price. The order of the specification's own example, which pays
  5000000 for a car of 5000000 and a light of 14000, both in stock, is accepted: the
  call returns no error, both products leave the stock and the order is recorded.
\<close>
theorem sellProduct_sup_accepts_underpayment:
  "amountPaid_sup ex_order_sup = 5000000 \<and>
   foldl (+) 0 (map Price_sup [ex_car_sup, ex_accessory]) = 5014000 \<and>
   productsInStock ex_store_sup 1 = Some ex_car_sup \<and>
   productsInStock ex_store_sup 3 = Some ex_accessory \<and>
   sellProduct_sup ex_store_sup ex_clk (Some ex_order_sup) =
     (None, ex_store_sup\<lparr>productsInStock := Map.empty,
                          processedOrders_sup := [7 \<mapsto> ex_order_sup]\<rparr>)"
  by (simp add: sellProduct_sup_def Let_def ex_sup_simps method_sup_simps)

section \<open>Listing products by type\<close>

lemma set_sold_slices:
  "visits (processedOrders s) oks \<Longrightarrow>
     set (sold_slices s oks) = (\<Union>a\<in>ran (processedOrders s). set (o_products (omem s a)))"
  by (simp add: sold_slices_def set_range_values)

lemma set_sold_slices_sup:
  "visits (processedOrders_sup s) oks \<Longrightarrow>
     set (sold_slices_sup s oks) = (\<Union>order\<in>ran (processedOrders_sup s). set (o_products_sup order))"
  by (simp add: sold_slices_sup_def set_range_values)

lemma availableProducts_filtered:
  assumes "ty \<noteq> []"
  shows "availableProducts s ks ty =
     (filter (\<lambda>p. Type s p = ty) (range_values (products s) ks),
      foldl (+) 0 (map (Price s) (filter (\<lambda>p. Type s p = ty) (range_values (products s) ks))))"
  using assms by (simp add: availableProducts_def collect_type_eq)

lemma soldProducts_filtered:
  assumes "ty \<noteq> []" and "None \<notin> set (sold_slices s oks)"
  shows "soldProducts s oks ty =
     Some (filter (\<lambda>p. Type s p = ty) (map the (sold_slices s oks)),
           foldl (+) 0 (map (Price s) (filter (\<lambda>p. Type s p = ty) (map the (sold_slices s oks)))))"
  using assms by (simp add: soldProducts_def those_no_None collect_type_eq)

lemma availableProducts_sup_filtered:
  assumes "ty \<noteq> []"
  shows "availableProducts_sup s ks ty =
     (if supported s ty
      then Inr (filter (\<lambda>p. Type_sup p = ty) (range_values (productsInStock s) ks),
                foldl (+) 0 (map Price_sup (filter (\<lambda>p. Type_sup p = ty) (range_values (productsInStock s) ks))))
      else Inl ErrTypeNotSupported)"
  using assms by (simp add: availableProducts_sup_def collect_type_sup_eq)

lemma soldProducts_sup_filtered:
  assumes "ty \<noteq> []" and "None \<notin> set (sold_slices_sup s oks)"
  shows "soldProducts_sup s oks ty =
     Some (if supportedProducts s ty \<noteq> None
           then Inr (filter (\<lambda>p. Type_sup p = ty) (map the (sold_slices_sup s oks)),
                foldl (+) 0 (map Price_sup (filter (\<lambda>p. Type_sup p = ty) (map the (sold_slices_sup s oks)))))
           else Inl ErrNoProductType)"
  using assms by (simp add: soldProducts_sup_def those_no_None collect_type_sup_eq)

lemma available_part:
  assumes "ty \<noteq> []" and "visits (products s) ks"
  shows "\<exists>out total. availableProducts s ks ty = (out, total) \<and>
           out = filter (\<lambda>p. Type s p = ty) (range_values (products s) ks) \<and>
           set out = {p \<in> ran (products s). Type s p = ty} \<and>
           length out = card {k \<in> dom (products s). Type s (the (products s k)) = ty} \<and>
           total = foldl (+) 0 (map (Price s) out)"
  using assms
  by (simp add: availableProducts_filtered set_range_values length_filter_range_values)

lemma sold_part:
  assumes "ty \<noteq> []" and "visits (processedOrders s) oks"
    and "\<forall>a\<in>ran (processedOrders s). None \<notin> set (o_products (omem s a))"
  shows "\<exists>out total. soldProducts s oks ty = Some (out, total) \<and>
           out = filter (\<lambda>p. Type s p = ty) (map the (sold_slices s oks)) \<and>
           set out = {p. (\<exists>a\<in>ran (processedOrders s). Some p \<in> set (o_products (omem s a))) \<and> Type s p = ty} \<and>
           total = foldl (+) 0 (map (Price s) out)"
proof -
  from assms(2,3) have n: "None \<notin> set (sold_slices s oks)"
    by (simp add: set_sold_slices)
  have "set (map the (sold_slices s oks)) = {p. \<exists>a\<in>ran (processedOrders s). Some p \<in> set (o_products (omem s a))}"
    using n assms(2) by (simp only: set_map_the[OF n] set_sold_slices) auto
  then show ?thesis
    using soldProducts_filtered[OF assms(1) n] by auto
qed

lemma available_sup_part:
  assumes "ty \<noteq> []" and "visits (productsInStock t) ks" and "supported t ty"
  shows "\<exists>out total. availableProducts_sup t ks ty = Inr (out, total) \<and>
           out = filter (\<lambda>p. Type_sup p = ty) (range_values (productsInStock t) ks) \<and>
           set out = {p \<in> ran (productsInStock t). Type_sup p = ty} \<and>
           length out = card {k \<in> dom (productsInStock t). Type_sup (the (productsInStock t k)) = ty} \<and>
           total = foldl (+) 0 (map Price_sup out)"
  using assms
  by (simp add: availableProducts_sup_filtered set_range_values length_filter_range_values)

lemma sold_sup_part:
  assumes "ty \<noteq> []" and "visits (processedOrders_sup t) oks"
    and "\<forall>order\<in>ran (processedOrders_sup t). None \<notin> set (o_products_sup order)"
    and "supportedProducts t ty \<noteq> None"
  shows "\<exists>out total. soldProducts_sup t oks ty = Some (Inr (out, total)) \<and>
           out = filter (\<lambda>p. Type_sup p = ty) (map the (sold_slices_sup t oks)) \<and>
           set out = {p. (\<exists>order\<in>ran (processedOrders_sup t). Some p \<in> set (o_products_sup order)) \<and> Type_sup p = ty} \<and>
           total = foldl (+) 0 (map Price_sup out)"
proof -
  from assms(2,3) have n: "None \<notin> set (sold_slices_sup t oks)"
    by (simp add: set_sold_slices_sup)
  have "set (map the (sold_slices_sup t oks)) =
      {p. \<exists>order\<in>ran (processedOrders_sup t). Some p \<in> set (o_products_sup order)}"
    using n assms(2) by (simp only: set_map_the[OF n] set_sold_slices_sup) auto
  then show ?thesis
    using soldProducts_sup_filtered[OF assms(1) n] assms(4) by auto
qed


text \<open>
  C6 (as amended). With a non-empty type tag and whatever the order in which the maps
  are ranged over:
  \<^item> \<^verbatim>\<open>availableProducts\<close> of part_000 returns the in-stock products of that type, one
    for each in-stock entry of that type, and the sum of their prices (added from 0 in
    the order of the returned list);
  \<^item> \<^verbatim>\<open>soldProducts\<close> of part_000 returns the products of that type in the slices of
    the processed orders, and the sum of their prices, when no recorded order holds a
    nil product (\<^verbatim>\<open>sellProduct\<close> records none: lemmas \<open>run_orders_no_nil\<close> and
    \<open>run_sup_orders_no_nil\<close>);
  \<^item> \<^verbatim>\<open>availableProducts\<close> of store.go returns the same when the type is supported,
    and the error "not supported" with no product when it is not;
  \<^item> \<^verbatim>\<open>soldProducts\<close> of store.go returns the same when the type is a key of the
    supported types (enabled or disabled), and the error "no product type" with no
    product when it is not.
\<close>
theorem filtered_queries:
  "ty \<noteq> [] \<longrightarrow>
     (visits (products s) ks \<longrightarrow>
        (\<exists>out total. availableProducts s ks ty = (out, total) \<and>
           out = filter (\<lambda>p. Type s p = ty) (range_values (products s) ks) \<and>
           set out = {p \<in> ran (products s). Type s p = ty} \<and>
           length out = card {k \<in> dom (products s). Type s (the (products s k)) = ty} \<and>
           total = foldl (+) 0 (map (Price s) out))) \<and>
     (visits (processedOrders s) oks \<and>
      (\<forall>a\<in>ran (processedOrders s). None \<notin> set (o_products (omem s a))) \<longrightarrow>
        (\<exists>out total. soldProducts s oks ty = Some (out, total) \<and>
           out = filter (\<lambda>p. Type s p = ty) (map the (sold_slices s oks)) \<and>
           set out = {p. (\<exists>a\<in>ran (processedOrders s). Some p \<in> set (o_products (omem s a))) \<and>
                         Type s p = ty} \<and>
           total = foldl (+) 0 (map (Price s) out))) \<and>
     (visits (productsInStock t) ks' \<and> supported t ty \<longrightarrow>
        (\<exists>out total. availableProducts_sup t ks' ty = Inr (out, total) \<and>
           out = filter (\<lambda>p. Type_sup p = ty) (range_values (productsInStock t) ks') \<and>
           set out = {p \<in> ran (productsInStock t). Type_sup p = ty} \<and>
           length out = card {k \<in> dom (productsInStock t). Type_sup (the (productsInStock t k)) = ty} \<and>
           total = foldl (+) 0 (map Price_sup out))) \<and>
     (\<not> supported t ty \<longrightarrow> availableProducts_sup t ks' ty = Inl ErrTypeNotSupported) \<and>
     (visits (processedOrders_sup t) oks' \<and>
      (\<forall>order\<in>ran (processedOrders_sup t). None \<notin> set (o_products_sup order)) \<and>
      supportedProducts t ty \<noteq> None \<longrightarrow>
        (\<exists>out total. soldProducts_sup t oks' ty = Some (Inr (out, total)) \<and>
           out = filter (\<lambda>p. Type_sup p = ty) (map the (sold_slices_sup t oks')) \<and>
           set out = {p. (\<exists>order\<in>ran (processedOrders_sup t). Some p \<in> set (o_products_sup order)) \<and>
                         Type_sup p = ty} \<and>
           total = foldl (+) 0 (map Price_sup out))) \<and>
     (supportedProducts t ty = None \<longrightarrow> soldProducts_sup t oks' ty = Some (Inl ErrNoProductType))"
proof (intro impI conjI)
  assume ty: "ty \<noteq> []"
  { assume "visits (products s) ks"
    from available_part[OF ty this]
    show "\<exists>out total. availableProducts s ks ty = (out, total) \<and>
           out = filter (\<lambda>p. Type s p = ty) (range_values (products s) ks) \<and>
           set out = {p \<in> ran (products s). Type s p = ty} \<and>
           length out = card {k \<in> dom (products s). Type s (the (products s k)) = ty} \<and>
           total = foldl (+) 0 (map (Price s) out)" . }
  { assume "visits (processedOrders s) oks \<and>
      (\<forall>a\<in>ran (processedOrders s). None \<notin> set (o_products (omem s a)))"
    then show "\<exists>out total. soldProducts s oks ty = Some (out, total) \<and>
           out = filter (\<lambda>p. Type s p = ty) (map the (sold_slices s oks)) \<and>
           set out = {p. (\<exists>a\<in>ran (processedOrders s). Some p \<in> set (o_products (omem s a))) \<and>
                         Type s p = ty} \<and>
           total = foldl (+) 0 (map (Price s) out)"
      using sold_part[OF ty, of s oks] by blast }
  { assume "visits (productsInStock t) ks' \<and> supported t ty"
    then show "\<exists>out total. availableProducts_sup t ks' ty = Inr (out, total) \<and>
           out = filter (\<lambda>p. Type_sup p = ty) (range_values (productsInStock t) ks') \<and>
           set out = {p \<in> ran (productsInStock t). Type_sup p = ty} \<and>
           length out = card {k \<in> dom (productsInStock t). Type_sup (the (productsInStock t k)) = ty} \<and>
           total = foldl (+) 0 (map Price_sup out)"
      using available_sup_part[OF ty, of t ks'] by blast }
  { assume "\<not> supported t ty"
    then show "availableProducts_sup t ks' ty = Inl ErrTypeNotSupported"
      using ty by (simp add: availableProducts_sup_def) }
  { assume "visits (processedOrders_sup t) oks' \<and>
      (\<forall>order\<in>ran (processedOrders_sup t). None \<notin> set (o_products_sup order)) \<and>
      supportedProducts t ty \<noteq> None"
    then show "\<exists>out total. soldProducts_sup t oks' ty = Some (Inr (out, total)) \<and>
           out = filter (\<lambda>p. Type_sup p = ty) (map the (sold_slices_sup t oks')) \<and>
           set out = {p. (\<exists>order\<in>ran (processedOrders_sup t). Some p \<in> set (o_products_sup order)) \<and>
                         Type_sup p = ty} \<and>
           total = foldl (+) 0 (map Price_sup out)"
      using sold_sup_part[OF ty, of t oks'] by blast }
  { assume "supportedProducts t ty = None"
    then show "soldProducts_sup t oks' ty = Some (Inl ErrNoProductType)"
      using ty by (simp add: soldProducts_sup_def) }
qed

text \<open>
  The example stores with the tag \<open>''Car''\<close>; the store with the type of the car
  disabled; the tag \<open>''Tyres''\<close>, which was never a supported type.
\<close>
theorem filtered_queries_witness:
  "visits (products ex_store) [12, 11] \<and>
   availableProducts ex_store [12, 11] ''Car'' = ([CarPtr ex_car], 5000000) \<and>
   set (fst (availableProducts ex_store [12, 11] ''Car'')) =
     {p \<in> ran (products ex_store). Type ex_store p = ''Car''} \<and>
   visits (processedOrders ex_sold) [77] \<and> ran (processedOrders ex_sold) = {0} \<and>
   None \<notin> set (o_products (omem ex_sold 0)) \<and>
   soldProducts ex_sold [77] ''Car'' = Some ([CarPtr ex_car], 5000000) \<and>
   set (fst (the (soldProducts ex_sold [77] ''Car''))) =
     {p. (\<exists>a\<in>ran (processedOrders ex_sold). Some p \<in> set (o_products (omem ex_sold a))) \<and>
         Type ex_sold p = ''Car''} \<and>
   visits (productsInStock ex_reached_sup) [3, 1] \<and> supported ex_reached_sup ''Car'' \<and>
   availableProducts_sup ex_reached_sup [3, 1] ''Car'' = Inr ([ex_car_sup], 5000000) \<and>
   visits (processedOrders_sup ex_reached_sup) [7] \<and>
   ran (processedOrders_sup ex_reached_sup) = {ex_order_sup} \<and>
   None \<notin> set (o_products_sup ex_order_sup) \<and>
   supportedProducts ex_reached_sup ''Car'' \<noteq> None \<and>
   soldProducts_sup ex_reached_sup [7] ''Car'' = Some (Inr ([ex_car_sup], 5000000)) \<and>
   \<not> supported ex_disabled_sup ''Car'' \<and>
   availableProducts_sup ex_disabled_sup [3, 1] ''Car'' = Inl ErrTypeNotSupported \<and>
   supportedProducts ex_store_sup ''Tyres'' = None \<and>
   soldProducts_sup ex_store_sup [] ''Tyres'' = Some (Inl ErrNoProductType)"
proof -
  have car: "''Car'' \<noteq> []" and tyres: "''Tyres'' \<noteq> []" by simp_all
  have v1: "visits (products ex_store) [12, 11]"
    by (auto simp: visits_def ex_store_def)
  have r2: "ran (processedOrders ex_sold) = {0}" and n2: "None \<notin> set (o_products (omem ex_sold 0))"
    by (auto simp: ex_sold_eq ex_simps ran_def)
  have v2: "visits (processedOrders ex_sold) [77]"
    by (auto simp: visits_def ex_sold_eq ex_simps)
  have h2: "visits (processedOrders ex_sold) [77] \<and>
      (\<forall>a\<in>ran (processedOrders ex_sold). None \<notin> set (o_products (omem ex_sold a)))"
    using v2 r2 n2 by simp
  have v3: "visits (productsInStock ex_reached_sup) [3, 1] \<and> supported ex_reached_sup ''Car''"
    by (auto simp: visits_def ex_reached_sup_eq ex_store_sup_def supported_def)
  have v4: "\<not> supported ex_disabled_sup ''Car''"
    by (simp add: ex_disabled_sup_eq ex_store_sup_def supported_def)
  have r5: "ran (processedOrders_sup ex_reached_sup) = {ex_order_sup}"
    and n5: "None \<notin> set (o_products_sup ex_order_sup)"
    by (auto simp: ex_reached_sup_eq ex_store_sup_def ex_order_sup_def ran_def)
  have v5: "visits (processedOrders_sup ex_reached_sup) [7] \<and> supportedProducts ex_reached_sup ''Car'' \<noteq> None"
    by (auto simp: visits_def ex_reached_sup_eq ex_store_sup_def)
  have h5: "visits (processedOrders_sup ex_reached_sup) [7] \<and>
      (\<forall>order\<in>ran (processedOrders_sup ex_reached_sup). None \<notin> set (o_products_sup order)) \<and>
      supportedProducts ex_reached_sup ''Car'' \<noteq> None"
    using v5 r5 n5 by simp
  have v6: "supportedProducts ex_store_sup ''Tyres'' = None"
    by (simp add: ex_store_sup_def)
  note i1 = filtered_queries [of "''Car''" ex_store "[12, 11]" "[]" ex_reached_sup "[3, 1]" "[7]"]
  note i2 = filtered_queries [of "''Car''" ex_sold "[]" "[77]" ex_disabled_sup "[3, 1]" "[]"]
  note i3 = filtered_queries [of "''Tyres''" ex_store "[]" "[]" ex_store_sup "[]" "[]"]
  from i1 car v1 have a1: "\<exists>out total. availableProducts ex_store [12, 11] ''Car'' = (out, total) \<and>
      out = filter (\<lambda>p. Type ex_store p = ''Car'') (range_values (products ex_store) [12, 11]) \<and>
      set out = {p \<in> ran (products ex_store). Type ex_store p = ''Car''} \<and>
      length out = card {k \<in> dom (products ex_store). Type ex_store (the (products ex_store k)) = ''Car''} \<and>
      total = foldl (+) 0 (map (Price ex_store) out)" by blast
  then have a1s: "set (fst (availableProducts ex_store [12, 11] ''Car'')) =
     {p \<in> ran (products ex_store). Type ex_store p = ''Car''}" by auto
  from a1 have a1e: "availableProducts ex_store [12, 11] ''Car'' = ([CarPtr ex_car], 5000000)"
    by (auto simp: range_values_def ex_simps method_simps)
  from i2 car h2 have a2: "\<exists>out total. soldProducts ex_sold [77] ''Car'' = Some (out, total) \<and>
      out = filter (\<lambda>p. Type ex_sold p = ''Car'') (map the (sold_slices ex_sold [77])) \<and>
      set out = {p. (\<exists>a\<in>ran (processedOrders ex_sold). Some p \<in> set (o_products (omem ex_sold a))) \<and>
                    Type ex_sold p = ''Car''} \<and>
      total = foldl (+) 0 (map (Price ex_sold) out)" by blast
  then have a2s: "set (fst (the (soldProducts ex_sold [77] ''Car''))) =
     {p. (\<exists>a\<in>ran (processedOrders ex_sold). Some p \<in> set (o_products (omem ex_sold a))) \<and>
         Type ex_sold p = ''Car''}" by auto
  from a2 have a2e: "soldProducts ex_sold [77] ''Car'' = Some ([CarPtr ex_car], 5000000)"
    by (auto simp: sold_slices_def range_values_def ex_sold_eq ex_simps method_simps)
  from i1 car v3 have a3: "\<exists>out total. availableProducts_sup ex_reached_sup [3, 1] ''Car'' = Inr (out, total) \<and>
      out = filter (\<lambda>p. Type_sup p = ''Car'') (range_values (productsInStock ex_reached_sup) [3, 1]) \<and>
      set out = {p \<in> ran (productsInStock ex_reached_sup). Type_sup p = ''Car''} \<and>
      length out = card {k \<in> dom (productsInStock ex_reached_sup).
                           Type_sup (the (productsInStock ex_reached_sup k)) = ''Car''} \<and>
      total = foldl (+) 0 (map Price_sup out)" by blast
  then have a3e: "availableProducts_sup ex_reached_sup [3, 1] ''Car'' = Inr ([ex_car_sup], 5000000)"
    by (auto simp: range_values_def ex_reached_sup_eq ex_sup_simps method_sup_simps)
  from i1 car h5 have a5: "\<exists>out total. soldProducts_sup ex_reached_sup [7] ''Car'' = Some (Inr (out, total)) \<and>
      out = filter (\<lambda>p. Type_sup p = ''Car'') (map the (sold_slices_sup ex_reached_sup [7])) \<and>
      set out = {p. (\<exists>order\<in>ran (processedOrders_sup ex_reached_sup). Some p \<in> set (o_products_sup order)) \<and>
                    Type_sup p = ''Car''} \<and>
      total = foldl (+) 0 (map Price_sup out)" by blast
  then have a5e: "soldProducts_sup ex_reached_sup [7] ''Car'' = Some (Inr ([ex_car_sup], 5000000))"
    by (auto simp: sold_slices_sup_def range_values_def ex_reached_sup_eq ex_sup_simps method_sup_simps)
  from i2 car v4 have a4: "availableProducts_sup ex_disabled_sup [3, 1] ''Car'' = Inl ErrTypeNotSupported"
    by blast
  from i3 tyres v6 have a6: "soldProducts_sup ex_store_sup [] ''Tyres'' = Some (Inl ErrNoProductType)"
    by blast
  show ?thesis
    using v1 a1e a1s v2 r2 n2 a2e a2s v3 a3e v5 r5 n5 a5e v4 a4 v6 a6 by blast
qed


text \<open>
  The claim as it was stated (for every store and every non-empty tag, the products of
  that type are returned) fails in store.go: after the type of the car is disabled, the
  car is in stock with the type \<open>''Car''\<close>, and the list of available products of that
  type is an error.
\<close>
theorem availableProducts_sup_disabled_type:
  "visits (productsInStock ex_disabled_sup) [3, 1] \<and>
   productsInStock ex_disabled_sup 1 = Some ex_car_sup \<and> Type_sup ex_car_sup = ''Car'' \<and>
   availableProducts_sup ex_disabled_sup [3, 1] ''Car'' = Inl ErrTypeNotSupported"
  by (auto simp add: visits_def availableProducts_sup_def ex_disabled_sup_eq ex_sup_simps method_sup_simps)

section \<open>Supported product types (store.go)\<close>

text \<open>
  C10 (as amended). In store.go, for every store and every product type that is not
  marked supported (absent from the supported types, or disabled): \<^verbatim>\<open>inStock\<close> returns
  false, whatever is in stock; \<^verbatim>\<open>availableProducts\<close> with that type as its filter (a
  non-empty tag) returns the error "not supported"; and \<^verbatim>\<open>sellProduct\<close> refuses every
  order that lists a product of that type, leaving the store as it was. The sale reads
  type and identity from the product the order lists, never from the stored one: the
  entry of an in-stock product of that type leaves the stock by a sale only when the
  order lists, under the same identity, another product whose type is supported, and
  does not list the stored product.
\<close>
theorem unsupported_type_gate:
  "\<not> supported t ty \<longrightarrow>
     \<not> inStock_sup t ks ty \<and>
     (ty \<noteq> [] \<longrightarrow> availableProducts_sup t ks' ty = Inl ErrTypeNotSupported) \<and>
     (Some p \<in> set (o_products_sup order) \<and> Type_sup p = ty \<longrightarrow>
        (\<exists>e. sellProduct_sup t clk (Some order) = (Some e, t))) \<and>
     (productsInStock t k = Some p0 \<and> Type_sup p0 = ty \<and>
      sellProduct_sup t clk ord = (None, t') \<and> productsInStock t' k = None \<longrightarrow>
        (\<exists>order' q. ord = Some order' \<and> Some q \<in> set (o_products_sup order') \<and> ID_sup q = k \<and>
           supported t (Type_sup q) \<and> q \<noteq> p0 \<and> Some p0 \<notin> set (o_products_sup order')))"
proof (intro impI conjI)
  assume u: "\<not> supported t ty"
  then show "\<not> inStock_sup t ks ty" by (simp add: inStock_sup_def)
  { assume "ty \<noteq> []"
    with u show "availableProducts_sup t ks' ty = Inl ErrTypeNotSupported"
      by (simp add: availableProducts_sup_def) }
  { assume h: "Some p \<in> set (o_products_sup order) \<and> Type_sup p = ty"
    obtain r t' where r: "sellProduct_sup t clk (Some order) = (r, t')"
      by (cases "sellProduct_sup t clk (Some order)")
    show "\<exists>e. sellProduct_sup t clk (Some order) = (Some e, t)"
    proof (cases r)
      case (Some e)
      with r sellProduct_sup_error_unchanged[of t clk "Some order" e t'] show ?thesis by simp
    next
      case None
      with r sellProduct_sup_accepted[of t clk "Some order" t'] h u show ?thesis by fastforce
    qed }
  { assume h: "productsInStock t k = Some p0 \<and> Type_sup p0 = ty \<and>
      sellProduct_sup t clk ord = (None, t') \<and> productsInStock t' k = None"
    then have acc: "sellProduct_sup t clk ord = (None, t')" by simp
    from sellProduct_sup_accepted[OF acc] obtain order' ps where
      o: "ord = Some order'" and ps: "o_products_sup order' = map Some ps" and
      sup: "\<forall>q\<in>set ps. supported t (Type_sup q) \<and> productsInStock t (ID_sup q) \<noteq> None" and
      t': "t' = t\<lparr>productsInStock := productsInStock t |` (- ID_sup ` set ps),
                  processedOrders_sup := (processedOrders_sup t)(o_id_sup order' \<mapsto> order')\<rparr>"
      by blast
    from h t' have "k \<in> ID_sup ` set ps"
      by (auto simp: restrict_map_def split: if_splits)
    then obtain q where q: "q \<in> set ps" "ID_sup q = k" by auto
    with sup have sq: "supported t (Type_sup q)" by simp
    with u h have ne: "q \<noteq> p0" by auto
    have "p0 \<notin> set ps" using sup u h by auto
    with ps have "Some p0 \<notin> set (o_products_sup order')" by auto
    with o ps q sq ne
    show "\<exists>order' q. ord = Some order' \<and> Some q \<in> set (o_products_sup order') \<and> ID_sup q = k \<and>
           supported t (Type_sup q) \<and> q \<noteq> p0 \<and> Some p0 \<notin> set (o_products_sup order')"
      by auto }
qed

text \<open>
  The store reached by adding the car and the light and then disabling the type of the
  car: the car is in stock, and it is neither reported in stock, nor listed, nor sold by
  the order that lists it; the order that lists another product under its identity
  takes it out of stock.
\<close>
theorem unsupported_type_gate_witness:
  "\<not> supported ex_disabled_sup ''Car'' \<and>
   productsInStock ex_disabled_sup 1 = Some ex_car_sup \<and> Type_sup ex_car_sup = ''Car'' \<and>
   \<not> inStock_sup ex_disabled_sup [3, 1] ''Car'' \<and>
   availableProducts_sup ex_disabled_sup [3, 1] ''Car'' = Inl ErrTypeNotSupported \<and>
   Some ex_car_sup \<in> set (o_products_sup ex_order_sup) \<and>
   (\<exists>e. sellProduct_sup ex_disabled_sup ex_clk (Some ex_order_sup) = (Some e, ex_disabled_sup)) \<and>
   fst (sellProduct_sup ex_disabled_sup ex_clk (Some ex_order_forged)) = None \<and>
   productsInStock (snd (sellProduct_sup ex_disabled_sup ex_clk (Some ex_order_forged))) 1 = None \<and>
   (\<exists>order' q. Some ex_order_forged = Some order' \<and> Some q \<in> set (o_products_sup order') \<and>
      ID_sup q = 1 \<and> supported ex_disabled_sup (Type_sup q) \<and> q \<noteq> ex_car_sup \<and>
      Some ex_car_sup \<notin> set (o_products_sup order'))"
proof -
  let ?t' = "snd (sellProduct_sup ex_disabled_sup ex_clk (Some ex_order_forged))"
  have u: "\<not> supported ex_disabled_sup ''Car''"
    by (simp add: ex_disabled_sup_eq ex_store_sup_def supported_def)
  have s: "productsInStock ex_disabled_sup 1 = Some ex_car_sup \<and> Type_sup ex_car_sup = ''Car''"
    by (simp add: ex_disabled_sup_eq ex_sup_simps method_sup_simps)
  have n: "''Car'' \<noteq> []" by simp
  have h: "Some ex_car_sup \<in> set (o_products_sup ex_order_sup) \<and> Type_sup ex_car_sup = ''Car''"
    by (simp add: ex_sup_simps method_sup_simps)
  have f: "fst (sellProduct_sup ex_disabled_sup ex_clk (Some ex_order_forged)) = None"
    "productsInStock ?t' 1 = None"
    by (simp_all add: ex_disabled_sup_eq ex_order_forged_def ex_forged_def sellProduct_sup_def Let_def
        ex_sup_simps method_sup_simps)
  then have f': "sellProduct_sup ex_disabled_sup ex_clk (Some ex_order_forged) = (None, ?t')"
    by (simp add: prod_eq_iff)
  from unsupported_type_gate
         [of ex_disabled_sup "''Car''" "[3, 1]" "[3, 1]" ex_car_sup ex_order_sup ex_clk
             1 ex_car_sup "Some ex_order_forged" ?t'] u n h s f f'
  show ?thesis by blast
qed


text \<open>
  The claim as it was stated (an in-stock product of a type that is not supported cannot
  be sold) fails: in that store, the order for a product of the supported type
  "Car Accessory" that carries the identity 1 of the car is accepted, and the car, of
  the disabled type, is no longer in stock.
\<close>
theorem sellProduct_sup_forged_identity:
  "\<not> supported ex_disabled_sup ''Car'' \<and>
   productsInStock ex_disabled_sup 1 = Some ex_car_sup \<and> Type_sup ex_car_sup = ''Car'' \<and>
   fst (sellProduct_sup ex_disabled_sup ex_clk (Some ex_order_forged)) = None \<and>
   productsInStock (snd (sellProduct_sup ex_disabled_sup ex_clk (Some ex_order_forged))) 1 = None"
  by (simp add: ex_disabled_sup_eq ex_order_forged_def ex_forged_def sellProduct_sup_def Let_def
        ex_sup_simps method_sup_simps)

subsection \<open>Where the supported types come from\<close>

lemma dom_fold_enable:
  "dom (fold (\<lambda>productType m. m(productType \<mapsto> True)) xs m) = set xs \<union> dom m"
  by (induction xs arbitrary: m) auto

lemma dom_newStore_sup: "dom (supportedProducts (newStore_sup nm init)) = set init"
  by (simp add: newStore_sup_def dom_fold_enable)

lemma update_insert_other [simp]:
  "supportedProducts (update_insert s ps) = supportedProducts s"
  "processedOrders_sup (update_insert s ps) = processedOrders_sup s"
  "st_name_sup (update_insert s ps) = st_name_sup s"
  by (induction ps arbitrary: s) simp_all

lemma updateProduct_other [simp]:
  "supportedProducts (snd (updateProduct s clk ps)) = supportedProducts s"
  "processedOrders_sup (snd (updateProduct s clk ps)) = processedOrders_sup s"
  by (simp_all add: updateProduct_def split: sum.splits)

lemma sellProduct_sup_supported [simp]:
  "supportedProducts (snd (sellProduct_sup s clk ord)) = supportedProducts s"
  by (simp add: sellProduct_sup_def Let_def split: option.splits sum.splits)

lemma deleteProducts_sup_other [simp]:
  "supportedProducts (snd (deleteProducts_sup s ids)) = supportedProducts s"
  "processedOrders_sup (snd (deleteProducts_sup s ids)) = processedOrders_sup s"
  by (simp_all add: deleteProducts_sup_def split: prod.splits)

lemma step_sup_supported:
  "supportedProducts (step_sup t op) ty \<noteq> None \<Longrightarrow>
     supportedProducts t ty \<noteq> None \<or> op = UpdateProductsSupported ty True"
  by (cases op) (auto simp: updateProductsSupported_def Let_def split: if_splits)

lemma run_sup_snoc: "run_sup s (ops @ [op]) = step_sup (run_sup s ops) op"
  by (simp add: run_sup_def)

lemma run_sup_supported:
  "supportedProducts (run_sup t ops) ty \<noteq> None \<Longrightarrow>
     supportedProducts t ty \<noteq> None \<or> UpdateProductsSupported ty True \<in> set ops"
proof (induction ops rule: rev_induct)
  case Nil
  then show ?case by (simp add: run_sup_def)
next
  case (snoc op ops)
  from snoc.prems step_sup_supported[of "run_sup t ops" op ty]
  have "supportedProducts (run_sup t ops) ty \<noteq> None \<or> op = UpdateProductsSupported ty True"
    by (simp add: run_sup_snoc)
  with snoc.IH show ?case by auto
qed

text \<open>
  C8. In store.go, \<^verbatim>\<open>updateProductsSupported\<close> with \<^verbatim>\<open>enable = false\<close> for a type that is
  not a key of the supported types returns an error and leaves the store, the supported
  types among it, unchanged. In the store reached from a fresh store by any list of
  operations, a type that is a key of the supported types was enabled before: it was
  given to \<^verbatim>\<open>newStore\<close>, which enables it, or one of the operations was
  \<^verbatim>\<open>updateProductsSupported\<close> with \<^verbatim>\<open>enable = true\<close> for it. So disabling a type that was
  never enabled returns the error.
\<close>
theorem disable_unknown_type:
  "(supportedProducts t ty = None \<longrightarrow>
      updateProductsSupported t ty False = (Some ErrCannotDisable, t)) \<and>
   (supportedProducts (run_sup (newStore_sup nm init) ops) ty' \<noteq> None \<longrightarrow>
      ty' \<in> set init \<or> UpdateProductsSupported ty' True \<in> set ops) \<and>
   (ty' \<notin> set init \<and> UpdateProductsSupported ty' True \<notin> set ops \<longrightarrow>
      updateProductsSupported (run_sup (newStore_sup nm init) ops) ty' False =
        (Some ErrCannotDisable, run_sup (newStore_sup nm init) ops))"
proof (intro conjI impI)
  assume "supportedProducts t ty = None"
  then show "updateProductsSupported t ty False = (Some ErrCannotDisable, t)"
    by (simp add: updateProductsSupported_def)
next
  assume "supportedProducts (run_sup (newStore_sup nm init) ops) ty' \<noteq> None"
  then show "ty' \<in> set init \<or> UpdateProductsSupported ty' True \<in> set ops"
    using run_sup_supported[of "newStore_sup nm init" ops ty'] dom_newStore_sup[of nm init]
    by (auto simp: dom_def)
next
  assume h: "ty' \<notin> set init \<and> UpdateProductsSupported ty' True \<notin> set ops"
  have "supportedProducts (run_sup (newStore_sup nm init) ops) ty' = None"
  proof (rule ccontr)
    assume "supportedProducts (run_sup (newStore_sup nm init) ops) ty' \<noteq> None"
    then have "ty' \<in> set init \<or> UpdateProductsSupported ty' True \<in> set ops"
      using run_sup_supported[of "newStore_sup nm init" ops ty'] dom_newStore_sup[of nm init]
      by (auto simp: dom_def)
    with h show False by simp
  qed
  then show "updateProductsSupported (run_sup (newStore_sup nm init) ops) ty' False =
        (Some ErrCannotDisable, run_sup (newStore_sup nm init) ops)"
    by (simp add: updateProductsSupported_def)
qed

text \<open>
  The store reached by the operations \<open>ex_ops_sup\<close>: "Spare Parts" is a key after it
  was enabled; "Tyres" never was enabled, and disabling it is an error.
\<close>
theorem disable_unknown_type_witness:
  "supportedProducts ex_store_sup ''Tyres'' = None \<and>
   updateProductsSupported ex_store_sup ''Tyres'' False = (Some ErrCannotDisable, ex_store_sup) \<and>
   supportedProducts (run_sup (newStore_sup ''Auto Shop'' [''Car'', ''Car Accessory'']) ex_ops_sup)
     ''Spare Parts'' \<noteq> None \<and>
   UpdateProductsSupported ''Spare Parts'' True \<in> set ex_ops_sup \<and>
   ''Tyres'' \<notin> set [''Car'', ''Car Accessory''] \<and>
   UpdateProductsSupported ''Tyres'' True \<notin> set ex_ops_sup \<and>
   fst (updateProductsSupported
          (run_sup (newStore_sup ''Auto Shop'' [''Car'', ''Car Accessory'']) ex_ops_sup) ''Tyres'' False) =
     Some ErrCannotDisable"
proof -
  have h1: "supportedProducts ex_store_sup ''Tyres'' = None"
    by (simp add: ex_store_sup_def)
  have h2: "supportedProducts (run_sup (newStore_sup ''Auto Shop'' [''Car'', ''Car Accessory'']) ex_ops_sup)
     ''Spare Parts'' \<noteq> None"
    by (simp add: ex_ops_sup_def run_sup_def newStore_sup_def updateProductsSupported_def)
  have m: "UpdateProductsSupported ''Spare Parts'' True \<in> set ex_ops_sup"
    by (simp add: ex_ops_sup_def)
  have h3: "''Tyres'' \<notin> set [''Car'', ''Car Accessory''] \<and>
      UpdateProductsSupported ''Tyres'' True \<notin> set ex_ops_sup"
    by (simp add: ex_ops_sup_def)
  note i1 = disable_unknown_type
    [of ex_store_sup "''Tyres''" "''Auto Shop''" "[''Car'', ''Car Accessory'']" ex_ops_sup "''Spare Parts''"]
  note i2 = disable_unknown_type
    [of ex_store_sup "''Tyres''" "''Auto Shop''" "[''Car'', ''Car Accessory'']" ex_ops_sup "''Tyres''"]
  from i1 h1 have c1: "updateProductsSupported ex_store_sup ''Tyres'' False = (Some ErrCannotDisable, ex_store_sup)"
    by blast
  from i2 h3 have c3: "fst (updateProductsSupported
          (run_sup (newStore_sup ''Auto Shop'' [''Car'', ''Car Accessory'']) ex_ops_sup) ''Tyres'' False) =
     Some ErrCannotDisable"
    by simp
  from h1 c1 h2 m h3 c3 show ?thesis by blast
qed


section \<open>Adding products\<close>

subsection \<open>The loops of addProducts (part_000) and updateProduct (store.go)\<close>

lemma validate_products_Inr:
  "validate_products s ps = Inr qs \<longleftrightarrow> ps = map Some qs \<and> (\<forall>q\<in>set qs. IsValid s q)"
proof (induction ps arbitrary: qs)
  case Nil
  then show ?case by auto
next
  case (Cons x ps)
  show ?case
  proof (cases x)
    case None
    then show ?thesis by auto
  next
    case (Some p)
    then show ?thesis using Cons.IH by (cases qs) (auto split: sum.splits)
  qed
qed

lemma add_step_eq:
  "add_step now r s p =
     (fst r, s\<lparr>pmem := (pmem s)(Product_of p :=
                   (pmem s (Product_of p))\<lparr>p_id := fst r, lastUpdated := Some now, createdAt := Some now\<rparr>),
               products := (products s)(fst r \<mapsto> p)\<rparr>)"
  by (simp add: add_step_def generateProductID_def ID_def Let_def)

lemma add_loop_Cons:
  "add_loop now rnd i s (p # qs) =
     (fst (rnd i) # fst (add_loop now rnd (Suc i) (snd (add_step now (rnd i) s p)) qs),
      snd (add_loop now rnd (Suc i) (snd (add_step now (rnd i) s p)) qs))"
  by (simp add: split_beta add_step_eq)

lemma add_loop_ids:
  "fst (add_loop now rnd i s qs) = map (\<lambda>k. fst (rnd k)) [i..<i + length qs]"
proof (induction qs arbitrary: i s)
  case Nil
  then show ?case by simp
next
  case (Cons p qs)
  have "[i..<i + length (p # qs)] = i # [Suc i..<Suc i + length qs]"
    by (subst upt_rec) simp
  then show ?case
    by (simp only: add_loop_Cons fst_conv Cons.IH list.map)
qed

lemma add_loop_other [simp]:
  "processedOrders (snd (add_loop now rnd i s qs)) = processedOrders s"
  "omem (snd (add_loop now rnd i s qs)) = omem s"
  "st_name (snd (add_loop now rnd i s qs)) = st_name s"
  by (induction qs arbitrary: i s) (simp_all add: split_beta add_step_eq)

lemma add_loop_products:
  "products (snd (add_loop now rnd i s qs)) =
     products s ++ map_of (rev (zip (fst (add_loop now rnd i s qs)) qs))"
proof (induction qs arbitrary: i s)
  case Nil
  then show ?case by simp
next
  case (Cons p qs)
  show ?case
    unfolding add_loop_Cons fst_conv snd_conv Cons.IH
    by (simp add: add_step_eq fun_eq_iff map_add_def split: option.splits)
qed

lemma add_loop_pmem:
  "pmem (snd (add_loop now rnd i s qs)) a =
     (case map_of (rev (zip (map Product_of qs) (fst (add_loop now rnd i s qs)))) a of
        None \<Rightarrow> pmem s a
      | Some r \<Rightarrow> (pmem s a)\<lparr>p_id := r, lastUpdated := Some now, createdAt := Some now\<rparr>)"
proof (induction qs arbitrary: i s)
  case Nil
  then show ?case by simp
next
  case (Cons p qs)
  show ?case
    unfolding add_loop_Cons fst_conv snd_conv Cons.IH
    by (simp add: add_step_eq map_add_def split: option.splits)
qed


lemma map_of_rev_zip_Some:
  assumes "length xs = length ys" and "a \<in> set xs"
  shows "\<exists>j<length xs. xs ! j = a \<and> map_of (rev (zip xs ys)) a = Some (ys ! j)"
proof -
  from assms have "a \<in> fst ` set (rev (zip xs ys))"
    by (simp add: map_fst_zip[symmetric] del: map_fst_zip) (metis assms(1) map_fst_zip set_map)
  then obtain r where r: "map_of (rev (zip xs ys)) a = Some r"
    by (cases "map_of (rev (zip xs ys)) a") (auto simp: map_of_eq_None_iff)
  then have "(a, r) \<in> set (zip xs ys)"
    by (auto dest: map_of_SomeD)
  then obtain j where "xs ! j = a" "ys ! j = r" "j < length xs"
    by (auto simp: in_set_zip)
  with r show ?thesis by auto
qed


lemma addProducts_success:
  assumes "addProducts s now rnd ps = (Inr ids, s')"
  shows "\<exists>qs. ps = map Some qs \<and> qs \<noteq> [] \<and> (\<forall>q\<in>set qs. IsValid s q) \<and>
           ids = fst (add_loop now rnd 0 s qs) \<and> s' = snd (add_loop now rnd 0 s qs)"
proof -
  from assms obtain qs where v: "validate_products s ps = Inr qs" and ne: "ps \<noteq> []"
    and r: "ids = fst (add_loop now rnd 0 s qs)" "s' = snd (add_loop now rnd 0 s qs)"
    by (auto simp: addProducts_def split_beta split: if_splits sum.splits)
  from v have "ps = map Some qs \<and> (\<forall>q\<in>set qs. IsValid s q)"
    by (simp add: validate_products_Inr)
  with ne r show ?thesis by auto
qed

lemma addProducts_valid:
  assumes "qs \<noteq> []" and "\<forall>q\<in>set qs. IsValid s q"
  shows "addProducts s now rnd (map Some qs) =
           (Inr (fst (add_loop now rnd 0 s qs)), snd (add_loop now rnd 0 s qs))"
proof -
  have "validate_products s (map Some qs) = Inr qs"
    using assms(2) by (simp add: validate_products_Inr)
  with assms(1) show ?thesis by (simp add: addProducts_def split_beta)
qed

lemma addProducts_error_unchanged:
  "addProducts s now rnd ps = (Inl e, s') \<Longrightarrow> s' = s"
  by (auto simp: addProducts_def split_beta split: if_splits sum.splits)

lemma add_loop_identity:
  assumes "p \<in> set qs"
  shows "\<exists>j<length qs. Product_of (qs ! j) = Product_of p \<and>
           ID (snd (add_loop now rnd 0 s qs)) p = fst (rnd j)"
proof -
  let ?ids = "fst (add_loop now rnd 0 s qs)"
  have len: "length (map Product_of qs) = length ?ids"
    by (simp add: add_loop_ids)
  from assms have "Product_of p \<in> set (map Product_of qs)" by simp
  from map_of_rev_zip_Some[OF len this] obtain j where
    j: "j < length qs" "Product_of (qs ! j) = Product_of p"
       "map_of (rev (zip (map Product_of qs) ?ids)) (Product_of p) = Some (?ids ! j)"
    by auto
  have "?ids ! j = fst (rnd j)" using j(1) by (simp add: add_loop_ids)
  with j show ?thesis
    by (auto simp: ID_def add_loop_pmem)
qed

lemma add_loop_dates:
  assumes "p \<in> set qs"
  shows "lastUpdated (pmem (snd (add_loop now rnd i s qs)) (Product_of p)) = Some now \<and>
         createdAt (pmem (snd (add_loop now rnd i s qs)) (Product_of p)) = Some now"
proof -
  let ?ids = "fst (add_loop now rnd i s qs)"
  have len: "length (map Product_of qs) = length ?ids"
    by (simp add: add_loop_ids)
  from assms have "Product_of p \<in> set (map Product_of qs)" by simp
  from map_of_rev_zip_Some[OF len this] show ?thesis
    by (auto simp: add_loop_pmem)
qed


lemma update_check_Inr:
  "update_check s clk i ps = Inr qs \<longleftrightarrow>
     ps = map Some qs \<and>
     (\<forall>k<length qs. supported s (Type_sup (qs ! k)) \<and> Validate (clk (i + k)) (qs ! k))"
proof (induction ps arbitrary: i qs)
  case Nil
  then show ?case by auto
next
  case (Cons x ps)
  show ?case
  proof (cases x)
    case None
    then show ?thesis by auto
  next
    case (Some p)
    show ?thesis
    proof (cases qs)
      case Nil
      with Some show ?thesis by (auto split: sum.splits)
    next
      case (Cons q qs')
      with Some Cons.IH[of "Suc i" qs'] show ?thesis
        by (auto simp: All_less_Suc2 split: sum.splits)
    qed
  qed
qed

lemma update_insert_products:
  "productsInStock (update_insert s ps) =
     productsInStock s ++ map_of (rev (map (\<lambda>p. (ID_sup p, p)) ps))"
proof (induction ps arbitrary: s)
  case Nil
  then show ?case by simp
next
  case (Cons p ps)
  show ?case
    unfolding update_insert.simps Cons.IH
    by (simp add: fun_eq_iff map_add_def split: option.splits)
qed

lemma update_insert_eq:
  "update_insert s ps =
     s\<lparr>productsInStock := productsInStock s ++ map_of (rev (map (\<lambda>p. (ID_sup p, p)) ps))\<rparr>"
  by (rule store_sup.equality) (simp_all add: update_insert_products)

subsection \<open>What adding assigns\<close>

text \<open>
  C2 (as amended). \<^verbatim>\<open>addProducts\<close> of part_000, given a non-empty list of valid
  products, succeeds and returns the identities it assigned, in the order of the
  products: the \<open>k\<close>-th is what the \<open>k\<close>-th \<^verbatim>\<open>rand.Read\<close> left in the buffer. Before a
  product is inserted, that identity and the time of the call, as creation and
  last-updated date, are written into the product; the product is inserted under that
  identity (when two reads give the same identity or a product is listed twice, the
  later write wins). The orders and every other product are unchanged. With an empty
  list, a nil product or a product that is not valid it returns an error and changes
  nothing.

  \<^verbatim>\<open>updateProduct\<close> of store.go assigns nothing and returns no identity: given a
  non-empty list of products that are supported and valid (\<^verbatim>\<open>Validate\<close> requires the
  identity and both dates to be set already), it returns nil and inserts each product
  as it is under the identity it carries.
\<close>
theorem addProducts_assigns:
  "(qs \<noteq> [] \<and> (\<forall>q\<in>set qs. IsValid s q) \<longrightarrow>
      (\<exists>ids s'. addProducts s now rnd (map Some qs) = (Inr ids, s') \<and>
         ids = map (\<lambda>k. fst (rnd k)) [0..<length qs] \<and>
         products s' = products s ++ map_of (rev (zip ids qs)) \<and>
         (\<forall>a. pmem s' a =
            (case map_of (rev (zip (map Product_of qs) ids)) a of
               None \<Rightarrow> pmem s a
             | Some r \<Rightarrow> (pmem s a)\<lparr>p_id := r, lastUpdated := Some now, createdAt := Some now\<rparr>)) \<and>
         (\<forall>q\<in>set qs. lastUpdated (pmem s' (Product_of q)) = Some now \<and>
                      createdAt (pmem s' (Product_of q)) = Some now \<and> ID s' q \<in> set ids) \<and>
         processedOrders s' = processedOrders s \<and> omem s' = omem s \<and> st_name s' = st_name s)) \<and>
   (ps = [] \<or> None \<in> set ps \<or> (\<exists>p. Some p \<in> set ps \<and> \<not> IsValid s p) \<longrightarrow>
      (\<exists>e. addProducts s now rnd ps = (Inl e, s))) \<and>
   (us \<noteq> [] \<and> (\<forall>k<length us. supported t (Type_sup (us ! k)) \<and> Validate (clk k) (us ! k)) \<longrightarrow>
      updateProduct t clk (map Some us) =
        (None, t\<lparr>productsInStock :=
                   productsInStock t ++ map_of (rev (map (\<lambda>p. (ID_sup p, p)) us))\<rparr>))"
proof (intro conjI impI)
  assume h: "qs \<noteq> [] \<and> (\<forall>q\<in>set qs. IsValid s q)"
  let ?r = "add_loop now rnd 0 s qs"
  have e: "addProducts s now rnd (map Some qs) = (Inr (fst ?r), snd ?r)"
    using h by (simp add: addProducts_valid)
  have i: "fst ?r = map (\<lambda>k. fst (rnd k)) [0..<length qs]"
    by (simp add: add_loop_ids)
  have d: "\<forall>q\<in>set qs. lastUpdated (pmem (snd ?r) (Product_of q)) = Some now \<and>
                      createdAt (pmem (snd ?r) (Product_of q)) = Some now \<and> ID (snd ?r) q \<in> set (fst ?r)"
  proof
    fix q assume q: "q \<in> set qs"
    from add_loop_identity[OF q, of now rnd s] obtain j where
      "j < length qs" "ID (snd ?r) q = fst (rnd j)" by auto
    then have "ID (snd ?r) q \<in> set (fst ?r)" unfolding i by auto
    with add_loop_dates[OF q, of now rnd 0 s]
    show "lastUpdated (pmem (snd ?r) (Product_of q)) = Some now \<and>
          createdAt (pmem (snd ?r) (Product_of q)) = Some now \<and> ID (snd ?r) q \<in> set (fst ?r)"
      by simp
  qed
  show "\<exists>ids s'. addProducts s now rnd (map Some qs) = (Inr ids, s') \<and>
         ids = map (\<lambda>k. fst (rnd k)) [0..<length qs] \<and>
         products s' = products s ++ map_of (rev (zip ids qs)) \<and>
         (\<forall>a. pmem s' a =
            (case map_of (rev (zip (map Product_of qs) ids)) a of
               None \<Rightarrow> pmem s a
             | Some r \<Rightarrow> (pmem s a)\<lparr>p_id := r, lastUpdated := Some now, createdAt := Some now\<rparr>)) \<and>
         (\<forall>q\<in>set qs. lastUpdated (pmem s' (Product_of q)) = Some now \<and>
                      createdAt (pmem s' (Product_of q)) = Some now \<and> ID s' q \<in> set ids) \<and>
         processedOrders s' = processedOrders s \<and> omem s' = omem s \<and> st_name s' = st_name s"
    apply (rule exI[of _ "fst ?r"], rule exI[of _ "snd ?r"])
    using e i d add_loop_products[of now rnd 0 s qs] add_loop_pmem[of now rnd 0 s qs]
    by simp
next
  assume h: "ps = [] \<or> None \<in> set ps \<or> (\<exists>p. Some p \<in> set ps \<and> \<not> IsValid s p)"
  obtain r s' where r: "addProducts s now rnd ps = (r, s')" by (cases "addProducts s now rnd ps")
  show "\<exists>e. addProducts s now rnd ps = (Inl e, s)"
  proof (cases r)
    case (Inl e)
    with r addProducts_error_unchanged[of s now rnd ps e s'] show ?thesis by simp
  next
    case (Inr ids)
    with r addProducts_success[of s now rnd ps ids s'] h show ?thesis by fastforce
  qed
next
  assume h: "us \<noteq> [] \<and> (\<forall>k<length us. supported t (Type_sup (us ! k)) \<and> Validate (clk k) (us ! k))"
  then have "update_check t clk 0 (map Some us) = Inr us"
    by (simp add: update_check_Inr)
  with h show "updateProduct t clk (map Some us) =
        (None, t\<lparr>productsInStock :=
                   productsInStock t ++ map_of (rev (map (\<lambda>p. (ID_sup p, p)) us))\<rparr>)"
    by (simp add: updateProduct_def update_insert_eq)
qed


text \<open>
  The two products of the example, added to the fresh stores; a list with a nil
  product.
\<close>
theorem addProducts_assigns_witness:
  "IsValid ex_fresh (CarPtr ex_car) \<and> IsValid ex_fresh (ProductPtr 1) \<and>
   fst (addProducts ex_fresh 100 ex_rnd [Some (CarPtr ex_car), Some (ProductPtr 1)]) = Inr [11, 12] \<and>
   products (snd (addProducts ex_fresh 100 ex_rnd [Some (CarPtr ex_car), Some (ProductPtr 1)])) 11 =
     Some (CarPtr ex_car) \<and>
   products (snd (addProducts ex_fresh 100 ex_rnd [Some (CarPtr ex_car), Some (ProductPtr 1)])) 12 =
     Some (ProductPtr 1) \<and>
   pmem (snd (addProducts ex_fresh 100 ex_rnd [Some (CarPtr ex_car), Some (ProductPtr 1)])) 0 =
     ex_ford\<lparr>p_id := 11, lastUpdated := Some 100, createdAt := Some 100\<rparr> \<and>
   pmem (snd (addProducts ex_fresh 100 ex_rnd [Some (CarPtr ex_car), Some (ProductPtr 1)])) 1 =
     ex_light\<lparr>p_id := 12, lastUpdated := Some 100, createdAt := Some 100\<rparr> \<and>
   (\<exists>e. addProducts ex_fresh 100 ex_rnd [Some (CarPtr ex_car), None] = (Inl e, ex_fresh)) \<and>
   supported ex_new_sup (Type_sup ex_car_sup) \<and>
   Validate (ex_clk 0) ex_car_sup \<and>
   supported ex_new_sup (Type_sup ex_accessory) \<and>
   Validate (ex_clk 1) ex_accessory \<and>
   productsInStock (snd (updateProduct ex_new_sup ex_clk
     [Some ex_car_sup, Some ex_accessory])) 1 = Some ex_car_sup"
proof -
  let ?qs = "[CarPtr ex_car, ProductPtr 1]"
  let ?us = "[ex_car_sup, ex_accessory]"
  let ?t = ex_new_sup
  have v: "IsValid ex_fresh (CarPtr ex_car) \<and> IsValid ex_fresh (ProductPtr 1)"
    by (simp add: ex_fresh_def newStore_def ex_simps method_simps)
  then have h1: "?qs \<noteq> [] \<and> (\<forall>q\<in>set ?qs. IsValid ex_fresh q)" by simp
  have h2: "[Some (CarPtr ex_car), None] = [] \<or> None \<in> set [Some (CarPtr ex_car), None] \<or>
      (\<exists>p. Some p \<in> set [Some (CarPtr ex_car), None] \<and> \<not> IsValid ex_fresh p)" by simp
  have w: "supported ?t (Type_sup ex_car_sup) \<and> Validate (ex_clk 0) ex_car_sup \<and>
      supported ?t (Type_sup ex_accessory) \<and> Validate (ex_clk 1) ex_accessory"
    by (simp add: newStore_sup_def ex_sup_simps method_sup_simps)
  then have h3: "?us \<noteq> [] \<and> (\<forall>k<length ?us. supported ?t (Type_sup (?us ! k)) \<and> Validate (ex_clk k) (?us ! k))"
    by (simp add: All_less_Suc)
  note inst = addProducts_assigns
    [of ?qs ex_fresh 100 ex_rnd "[Some (CarPtr ex_car), None]" ?us ?t ex_clk]
  from inst h1 obtain ids s' where
    r: "addProducts ex_fresh 100 ex_rnd (map Some ?qs) = (Inr ids, s')" and
    i: "ids = map (\<lambda>k. fst (ex_rnd k)) [0..<length ?qs]" and
    p: "products s' = products ex_fresh ++ map_of (rev (zip ids ?qs))" and
    m: "\<forall>a. pmem s' a =
            (case map_of (rev (zip (map Product_of ?qs) ids)) a of
               None \<Rightarrow> pmem ex_fresh a
             | Some r \<Rightarrow> (pmem ex_fresh a)\<lparr>p_id := r, lastUpdated := Some 100, createdAt := Some 100\<rparr>)"
    by blast
  have i': "ids = [11, 12]" unfolding i by (simp add: ex_rnd_def upt_rec)
  from r i' have c1: "fst (addProducts ex_fresh 100 ex_rnd [Some (CarPtr ex_car), Some (ProductPtr 1)]) = Inr [11, 12]"
    and s': "snd (addProducts ex_fresh 100 ex_rnd [Some (CarPtr ex_car), Some (ProductPtr 1)]) = s'"
    by simp_all
  from p i' have c2: "products s' 11 = Some (CarPtr ex_car)" "products s' 12 = Some (ProductPtr 1)"
    by simp_all
  from m i' have c3: "pmem s' 0 = ex_ford\<lparr>p_id := 11, lastUpdated := Some 100, createdAt := Some 100\<rparr>"
      "pmem s' 1 = ex_light\<lparr>p_id := 12, lastUpdated := Some 100, createdAt := Some 100\<rparr>"
    by (simp_all add: ex_fresh_def newStore_def ex_pmem0_def ex_car_def)
  from inst h2 have c4: "\<exists>e. addProducts ex_fresh 100 ex_rnd [Some (CarPtr ex_car), None] = (Inl e, ex_fresh)"
    by blast
  from inst h3 have "updateProduct ?t ex_clk (map Some ?us) =
        (None, ?t\<lparr>productsInStock :=
                   productsInStock ?t ++ map_of (rev (map (\<lambda>p. (ID_sup p, p)) ?us))\<rparr>)"
    by blast
  then have c5: "productsInStock (snd (updateProduct ?t ex_clk [Some ex_car_sup, Some ex_accessory])) 1 =
      Some ex_car_sup"
    by (simp add: newStore_sup_def ex_sup_simps method_sup_simps)
  from v c1 c2 c3 c4 w c5 show ?thesis unfolding s' by blast
qed

text \<open>
  The claim as it was stated (every add-product operation assigns a fresh identity and
  the dates, and returns the identities) fails for store.go: \<^verbatim>\<open>updateProduct\<close> accepts
  the two valid products at the instant 100, returns nil and nothing else, and the car
  is in stock under the identity 1 the caller gave it, with the dates 50 it came with.
\<close>
theorem updateProduct_assigns_nothing:
  "updateProduct ex_new_sup ex_clk
     [Some ex_car_sup, Some ex_accessory] = (None, ex_store_sup) \<and>
   productsInStock ex_store_sup 1 = Some ex_car_sup \<and>
   ID_sup ex_car_sup = 1 \<and>
   createdAt (Product_of_sup ex_car_sup) = Some 50 \<and>
   lastUpdated (Product_of_sup ex_car_sup) = Some 50 \<and> ex_clk 0 = 100"
  by (simp add: newStore_sup_def updateProduct_def ex_sup_simps method_sup_simps)


subsection \<open>The identities of added products\<close>


section \<open>Recorded orders\<close>

subsection \<open>What each operation leaves unchanged\<close>

lemma run_snoc: "run s (ops @ [op]) = step (run s ops) op"
  by (simp add: run_def)

lemma addProducts_other [simp]:
  "processedOrders (snd (addProducts s now rnd ps)) = processedOrders s"
  "omem (snd (addProducts s now rnd ps)) = omem s"
  by (simp_all add: addProducts_def split_beta split: sum.splits)


lemma deleteProducts_other [simp]:
  "processedOrders (snd (deleteProducts s ids)) = processedOrders s"
  "omem (snd (deleteProducts s ids)) = omem s"
  "pmem (snd (deleteProducts s ids)) = pmem s"
  by (simp_all add: deleteProducts_def split: prod.splits)

lemma sellProduct_cases:
  "snd (sellProduct s rnd ord) = s \<or>
   (\<exists>a ps. ord = Some a \<and> o_products (omem s a) = map Some ps \<and>
      sellProduct s rnd ord =
        (Inr (fst rnd),
         s\<lparr>products := products s |` (- ID s ` set ps),
           processedOrders := (processedOrders s)(fst rnd \<mapsto> a),
           omem := (omem s)(a := (omem s a)\<lparr>o_id := fst rnd\<rparr>)\<rparr>))"
proof (cases "sellProduct s rnd ord")
  case (Pair r s')
  show ?thesis
  proof (cases r)
    case (Inl e)
    with Pair sellProduct_error_unchanged[of s rnd ord e s'] show ?thesis by simp
  next
    case (Inr oid)
    with Pair sellProduct_accepted[of s rnd ord oid s'] show ?thesis by auto
  qed
qed

lemma sellProduct_pmem [simp]: "pmem (snd (sellProduct s rnd ord)) = pmem s"
  using sellProduct_cases[of s rnd ord] by auto






lemma sellProduct_sup_cases:
  "snd (sellProduct_sup t clk ord) = t \<or>
   (\<exists>order ps. ord = Some order \<and> o_products_sup order = map Some ps \<and>
      sellProduct_sup t clk ord =
        (None, t\<lparr>productsInStock := productsInStock t |` (- ID_sup ` set ps),
                 processedOrders_sup := (processedOrders_sup t)(o_id_sup order \<mapsto> order)\<rparr>))"
proof (cases "sellProduct_sup t clk ord")
  case (Pair r t')
  show ?thesis
  proof (cases r)
    case (Some e)
    with Pair sellProduct_sup_error_unchanged[of t clk ord e t'] show ?thesis by simp
  next
    case None
    with Pair sellProduct_sup_accepted[of t clk ord t'] show ?thesis by auto
  qed
qed

lemma updateProductsSupported_orders [simp]:
  "processedOrders_sup (snd (updateProductsSupported t ty enable)) = processedOrders_sup t"
  by (simp add: updateProductsSupported_def Let_def)






subsection \<open>The life of a recorded order\<close>




text \<open>
  In part_000 the products of a recorded order are shared with the caller: adding the
  sold car again writes a new identity into the product that the recorded order holds.
\<close>
lemma addProducts_rewrites_sold_product:
  "processedOrders ex_sold 77 = Some 0 \<and>
   Some (CarPtr ex_car) \<in> set (o_products (omem ex_sold 0)) \<and>
   ID ex_sold (CarPtr ex_car) = 11 \<and>
   fst (addProducts ex_sold 200 (\<lambda>i. (21, False)) [Some (CarPtr ex_car)]) = Inr [21] \<and>
   ID (snd (addProducts ex_sold 200 (\<lambda>i. (21, False)) [Some (CarPtr ex_car)])) (CarPtr ex_car) = 21"
  by (simp add: ex_sold_eq add_simps ex_simps method_simps)


subsection \<open>Recorded orders hold no nil product\<close>

text \<open>
  In every store reached from a fresh one, no recorded order holds a nil product:
  \<^verbatim>\<open>sellProduct\<close> records an order only after its first loop has found every product
  non-nil, and no operation writes to the slice of a recorded order. This is the
  hypothesis under which \<^verbatim>\<open>soldProducts\<close> returns (theorem \<open>filtered_queries\<close>).
\<close>
lemma step_orders_no_nil:
  assumes "\<forall>a\<in>ran (processedOrders s). None \<notin> set (o_products (omem s a))"
  shows "\<forall>a\<in>ran (processedOrders (step s op)). None \<notin> set (o_products (omem (step s op) a))"
proof (cases op)
  case (SellProduct rnd ord)
  from sellProduct_cases[of s rnd ord] consider
    "snd (sellProduct s rnd ord) = s"
    | a ps where "o_products (omem s a) = map Some ps"
        "snd (sellProduct s rnd ord) =
           s\<lparr>products := products s |` (- ID s ` set ps),
             processedOrders := (processedOrders s)(fst rnd \<mapsto> a),
             omem := (omem s)(a := (omem s a)\<lparr>o_id := fst rnd\<rparr>)\<rparr>"
    by auto
  then show ?thesis
  proof cases
    case 1
    with SellProduct assms show ?thesis by simp
  next
    case 2
    have "None \<notin> set (o_products (omem (step s op) a'))"
      if "a' \<in> ran (processedOrders (step s op))" for a'
    proof (cases "a' = a")
      case True
      with 2 SellProduct show ?thesis by auto
    next
      case False
      with that 2 SellProduct have "a' \<in> ran (processedOrders s)"
        by (auto simp: ran_def split: if_splits)
      with assms False 2 SellProduct show ?thesis by simp
    qed
    then show ?thesis by blast
  qed
qed (use assms in simp_all)

lemma run_orders_no_nil:
  "\<forall>a\<in>ran (processedOrders (run (newStore nm pm om) ops)).
     None \<notin> set (o_products (omem (run (newStore nm pm om) ops) a))"
proof (induction ops rule: rev_induct)
  case Nil
  then show ?case by (simp add: run_def newStore_def)
next
  case (snoc op ops)
  from step_orders_no_nil[OF snoc.IH, of op] show ?case by (simp add: run_snoc)
qed

lemma step_sup_orders_no_nil:
  assumes "\<forall>order\<in>ran (processedOrders_sup t). None \<notin> set (o_products_sup order)"
  shows "\<forall>order\<in>ran (processedOrders_sup (step_sup t op)). None \<notin> set (o_products_sup order)"
proof (cases op)
  case (SellProduct_sup clk ord)
  from sellProduct_sup_cases[of t clk ord] consider
    "snd (sellProduct_sup t clk ord) = t"
    | order ps where "o_products_sup order = map Some ps"
        "processedOrders_sup (snd (sellProduct_sup t clk ord)) =
           (processedOrders_sup t)(o_id_sup order \<mapsto> order)"
    by auto
  then show ?thesis
  proof cases
    case 1
    with SellProduct_sup assms show ?thesis by simp
  next
    case 2
    have "None \<notin> set (o_products_sup order')"
      if "order' \<in> ran (processedOrders_sup (step_sup t op))" for order'
    proof (cases "order' = order")
      case True
      with 2 show ?thesis by auto
    next
      case False
      with that 2 SellProduct_sup have "order' \<in> ran (processedOrders_sup t)"
        by (auto simp: ran_def split: if_splits)
      with assms show ?thesis by simp
    qed
    then show ?thesis by blast
  qed
qed (use assms in simp_all)

lemma run_sup_orders_no_nil:
  "\<forall>order\<in>ran (processedOrders_sup (run_sup (newStore_sup nm init) ops)).
     None \<notin> set (o_products_sup order)"
proof (induction ops rule: rev_induct)
  case Nil
  then show ?case by (simp add: run_sup_def newStore_sup_def)
next
  case (snoc op ops)
  from step_sup_orders_no_nil[OF snoc.IH, of op] show ?case by (simp add: run_sup_snoc)
qed

section \<open>The identities of added products\<close>

subsection \<open>The identities written along a list of operations\<close>















subsection \<open>Non-zero and distinct identities\<close>







text \<open>
  It fails as well when two calls read the same non-zero value: the car, added by the
  first call, and the light, added by the second, both hold the identity 11.
\<close>
lemma addProducts_same_read_twice:
  "added_at ex_fresh ex_adds_same 0 (CarPtr ex_car) \<and>
   added_at ex_fresh ex_adds_same 1 (ProductPtr 1) \<and>
   Product_of (CarPtr ex_car) \<noteq> Product_of (ProductPtr 1) \<and>
   ID (run ex_fresh ex_adds_same) (CarPtr ex_car) = 11 \<and>
   ID (run ex_fresh ex_adds_same) (ProductPtr 1) = 11"
  by (simp add: added_at_def run_def ex_adds_same_def ex_fresh_def add_simps ex_simps method_simps)

end
